theory Spec2Isabelle
  imports Complex_Main "HOL-Library.Sublist" "HOL-Library.Char_ord" "HOL-Library.List_Lexorder"
begin

section \<open>Online Retail API: the product service of index.js\<close>

text \<open>
  The service is an Express application over a PostgreSQL pool. The embedding follows
  index.js function by function: JavaScript values and the coercions the handlers rely on
  (\<open>isNaN\<close>, \<open>parseInt\<close>, truthiness, \<open>toUpperCase\<close>), the validation middleware, the
  error mapper, every route handler with its \<open>try\<close>/\<open>catch\<close>/\<open>finally\<close>, and the router
  in registration order. The store is a parameter of the handlers; PostgreSQL's reading of
  the statements that the read endpoints and DELETE issue is modelled in \<open>pg_store\<close>.

  Strings are ASCII strings (\<open>string\<close>); code units above 127 are outside the model.
\<close>

subsection \<open>JavaScript numbers and values\<close>

text \<open>
  A JavaScript number is NaN, an infinity or a finite value. \<open>Fin q\<close> carries the exact
  value \<open>q\<close>; arithmetic on \<open>Fin\<close> is exact, which agrees with IEEE doubles on integers
  below \<open>2^53\<close>. Both zeros are \<open>Fin 0\<close> (the handlers never divide).
\<close>

datatype number = NaN | Fin rat | PosInf | NegInf

text \<open>
  A value of \<open>req.body\<close> (parsed JSON). A non-primitive (array or object) is carried as
  \<open>JObj s\<close>, where \<open>s\<close> is the string its conversion to a primitive yields
  (\<open>[5]\<close> is \<open>JObj ''5''\<close>, a plain object is \<open>JObj ''[object Object]''\<close>).
\<close>

datatype jsval = JUndefined | JNull | JBool bool | JNum number | JStr string | JObj string

text \<open>
  A value of \<open>req.query\<close>: a string, or an array or object (a repeated key, or bracket
  syntax), again carried as its string conversion.
\<close>

datatype qval = QStr string | QObj string

text \<open>
  \<open>req.body\<close> as \<open>express.json()\<close> leaves it and \<open>req.query\<close> as the query parser leaves
  it: objects, given by their own properties. A property that is not there reads as
  undefined.
\<close>

type_synonym body = "(string \<times> jsval) list"
type_synonym query = "(string \<times> qval) list"

definition get_prop :: "body \<Rightarrow> string \<Rightarrow> jsval" where
  "get_prop b k = (case map_of b k of None \<Rightarrow> JUndefined | Some v \<Rightarrow> v)"

fun to_js :: "qval \<Rightarrow> jsval" where
  "to_js (QStr s) = JStr s"
| "to_js (QObj s) = JObj s"

subsection \<open>String to number\<close>

definition StrWhiteSpaceChar :: "char \<Rightarrow> bool" where
  "StrWhiteSpaceChar c = (of_char c \<in> {9, 10, 11, 12, 13, 32 :: nat})"

definition trim :: "string \<Rightarrow> string" where
  "trim s = rev (dropWhile StrWhiteSpaceChar (rev (dropWhile StrWhiteSpaceChar s)))"

definition digit_of :: "char \<Rightarrow> nat option" where
  "digit_of c =
     (let n = (of_char c :: nat)
      in if 48 \<le> n \<and> n \<le> 57 then Some (n - 48)
         else if 97 \<le> n \<and> n \<le> 122 then Some (n - 87)
         else if 65 \<le> n \<and> n \<le> 90 then Some (n - 55)
         else None)"

definition is_radix_digit :: "nat \<Rightarrow> char \<Rightarrow> bool" where
  "is_radix_digit R c = (case digit_of c of None \<Rightarrow> False | Some d \<Rightarrow> d < R)"

definition radix_value :: "nat \<Rightarrow> string \<Rightarrow> nat" where
  "radix_value R ds = foldl (\<lambda>a c. a * R + (case digit_of c of None \<Rightarrow> 0 | Some d \<Rightarrow> d)) 0 ds"

abbreviation DecimalDigit :: "char \<Rightarrow> bool" where
  "DecimalDigit \<equiv> is_radix_digit 10"

text \<open>
  Rounding to a double, as far as the handlers can observe it: a magnitude of at least
  \<open>2^1024 - 2^970\<close> becomes an infinity, one of at most \<open>2^-1075\<close> becomes zero, and
  anything between keeps its sign and stays finite and non-zero.
\<close>

definition to_double :: "rat \<Rightarrow> number" where
  "to_double q =
     (if 2 ^ 1024 - 2 ^ 970 \<le> q then PosInf
      else if q \<le> - (2 ^ 1024 - 2 ^ 970) then NegInf
      else if \<bar>q\<bar> \<le> 1 / 2 ^ 1075 then Fin 0
      else Fin q)"

definition scale10 :: "nat \<Rightarrow> int \<Rightarrow> rat" where
  "scale10 m e = (if 0 \<le> e then of_nat m * 10 ^ nat e else of_nat m / 10 ^ nat (- e))"

definition SignedInteger :: "string \<Rightarrow> int option" where
  "SignedInteger s =
     (let neg = (case s of [] \<Rightarrow> False | c # _ \<Rightarrow> c = CHR ''-'');
          ds = (case s of [] \<Rightarrow> [] | c # r \<Rightarrow> if c = CHR ''+'' \<or> c = CHR ''-'' then r else s)
      in if ds \<noteq> [] \<and> list_all DecimalDigit ds
         then Some (if neg then - int (radix_value 10 ds) else int (radix_value 10 ds))
         else None)"

definition ExponentPart :: "string \<Rightarrow> int option" where
  "ExponentPart s =
     (case s of [] \<Rightarrow> Some 0
      | c # r \<Rightarrow> if c = CHR ''e'' \<or> c = CHR ''E'' then SignedInteger r else None)"

definition StrUnsignedDecimalLiteral :: "string \<Rightarrow> number" where
  "StrUnsignedDecimalLiteral s =
     (if s = ''Infinity'' then PosInf
      else
        let ip = takeWhile DecimalDigit s;
            r1 = dropWhile DecimalDigit s;
            fp = (case r1 of [] \<Rightarrow> [] | c # r \<Rightarrow> if c = CHR ''.'' then takeWhile DecimalDigit r else []);
            r2 = (case r1 of [] \<Rightarrow> [] | c # r \<Rightarrow> if c = CHR ''.'' then dropWhile DecimalDigit r else r1)
        in if ip = [] \<and> fp = [] then NaN
           else (case ExponentPart r2 of
                   None \<Rightarrow> NaN
                 | Some e \<Rightarrow> to_double (scale10 (radix_value 10 (ip @ fp)) (e - int (length fp)))))"

definition negate :: "number \<Rightarrow> number" where
  "negate n = (case n of NaN \<Rightarrow> NaN | Fin q \<Rightarrow> Fin (- q) | PosInf \<Rightarrow> NegInf | NegInf \<Rightarrow> PosInf)"

definition NonDecimalIntegerLiteral :: "string \<Rightarrow> number option" where
  "NonDecimalIntegerLiteral s =
     (case s of
        a # b # ds \<Rightarrow>
          if a \<noteq> CHR ''0'' then None
          else
            let R = (if b = CHR ''x'' \<or> b = CHR ''X'' then 16
                     else if b = CHR ''o'' \<or> b = CHR ''O'' then 8
                     else if b = CHR ''b'' \<or> b = CHR ''B'' then 2 else (0::nat))
            in if R = 0 then None
               else if ds \<noteq> [] \<and> list_all (is_radix_digit R) ds
                    then Some (to_double (of_nat (radix_value R ds)))
                    else Some NaN
      | _ \<Rightarrow> None)"

definition StringToNumber :: "string \<Rightarrow> number" where
  "StringToNumber s =
     (let t = trim s
      in if t = [] then Fin 0
         else (case NonDecimalIntegerLiteral t of
                 Some n \<Rightarrow> n
               | None \<Rightarrow>
                   (case t of
                      [] \<Rightarrow> Fin 0
                    | c # r \<Rightarrow>
                        if c = CHR ''+'' then StrUnsignedDecimalLiteral r
                        else if c = CHR ''-'' then negate (StrUnsignedDecimalLiteral r)
                        else StrUnsignedDecimalLiteral t)))"

fun ToNumber :: "jsval \<Rightarrow> number" where
  "ToNumber JUndefined = NaN"
| "ToNumber JNull = Fin 0"
| "ToNumber (JBool b) = (if b then Fin 1 else Fin 0)"
| "ToNumber (JNum n) = n"
| "ToNumber (JStr s) = StringToNumber s"
| "ToNumber (JObj s) = StringToNumber s"

fun ToBoolean :: "jsval \<Rightarrow> bool" where
  "ToBoolean JUndefined = False"
| "ToBoolean JNull = False"
| "ToBoolean (JBool b) = b"
| "ToBoolean (JNum n) = (n \<noteq> NaN \<and> n \<noteq> Fin 0)"
| "ToBoolean (JStr s) = (s \<noteq> [])"
| "ToBoolean (JObj s) = True"

definition isNaN :: "jsval \<Rightarrow> bool" where
  "isNaN v = (ToNumber v = NaN)"

text \<open>\<open>v <= 0\<close>: both sides go through ToNumber; a comparison with NaN is false.\<close>

definition le_zero :: "jsval \<Rightarrow> bool" where
  "le_zero v = (case ToNumber v of NaN \<Rightarrow> False | Fin q \<Rightarrow> q \<le> 0 | PosInf \<Rightarrow> False | NegInf \<Rightarrow> True)"

text \<open>\<open>parseInt(string)\<close> with no radix argument.\<close>

definition parseInt :: "string \<Rightarrow> number" where
  "parseInt s =
     (let S = dropWhile StrWhiteSpaceChar s;
          neg = (case S of [] \<Rightarrow> False | c # _ \<Rightarrow> c = CHR ''-'');
          S1 = (case S of [] \<Rightarrow> [] | c # r \<Rightarrow> if c = CHR ''+'' \<or> c = CHR ''-'' then r else S);
          hex = (case S1 of a # b # _ \<Rightarrow> a = CHR ''0'' \<and> (b = CHR ''x'' \<or> b = CHR ''X'') | _ \<Rightarrow> False);
          R = (if hex then 16 else 10);
          S2 = (if hex then drop 2 S1 else S1);
          Z = takeWhile (is_radix_digit R) S2
      in if Z = [] then NaN
         else if neg then negate (to_double (of_nat (radix_value R Z)))
         else to_double (of_nat (radix_value R Z)))"

text \<open>Subtraction and multiplication of numbers, with the IEEE special cases.\<close>

fun num_sub :: "number \<Rightarrow> number \<Rightarrow> number" where
  "num_sub (Fin a) (Fin b) = Fin (a - b)"
| "num_sub NaN _ = NaN"
| "num_sub _ NaN = NaN"
| "num_sub PosInf PosInf = NaN"
| "num_sub NegInf NegInf = NaN"
| "num_sub PosInf _ = PosInf"
| "num_sub NegInf _ = NegInf"
| "num_sub _ PosInf = NegInf"
| "num_sub _ NegInf = PosInf"

definition num_sign :: "number \<Rightarrow> int" where
  "num_sign n = (case n of NaN \<Rightarrow> 0 | Fin q \<Rightarrow> (if q < 0 then -1 else if q = 0 then 0 else 1)
                 | PosInf \<Rightarrow> 1 | NegInf \<Rightarrow> -1)"

definition num_mul :: "number \<Rightarrow> number \<Rightarrow> number" where
  "num_mul a b =
     (case (a, b) of
        (Fin x, Fin y) \<Rightarrow> Fin (x * y)
      | _ \<Rightarrow>
          if a = NaN \<or> b = NaN then NaN
          else let s = num_sign a * num_sign b
               in if s = 0 then NaN else if 0 < s then PosInf else NegInf)"

subsection \<open>Errors, responses and the trace of a request\<close>

text \<open>
  A thrown error: \<open>code\<close> is \<open>error.code\<close> (the SQLSTATE of a store error, undefined for
  a JavaScript runtime error), \<open>message\<close> is \<open>error.message\<close>.
\<close>

record js_error =
  code :: "string option"
  message :: string

text \<open>
  A result row is a product row (\<open>SELECT *\<close>, \<open>RETURNING *\<close>), a projected row of the
  low-stock query, or any other object of columns.
\<close>

record product =
  product_id :: int
  stock_code :: string
  description :: string
  unit_price :: "rat option"
  stock_quantity :: int
  reorder_level :: int
  is_active :: bool

datatype row =
    ProductRow product
  | LowStockRow int string string int int
  | Columns "(string \<times> jsval) list"

datatype json = JVal jsval | JRow row | JRows "row list"

record response =
  status :: nat
  json_body :: "(string \<times> json) list"

text \<open>\<open>res.status(n).json(obj)\<close>: properties whose value is undefined are not serialised.\<close>

definition res_json :: "nat \<Rightarrow> (string \<times> json) list \<Rightarrow> response" where
  "res_json n obj = \<lparr>status = n, json_body = filter (\<lambda>(k, v). v \<noteq> JVal JUndefined) obj\<rparr>"

text \<open>The SQL statements of index.js, with the parts that the handlers interpolate.\<close>

datatype stmt =
    SelectProducts string string string nat nat
    \<comment> \<open>whereClause, sortColumn, order, and the two placeholder numbers of LIMIT and OFFSET\<close>
  | SelectProductBy string
    \<comment> \<open>searchField\<close>
  | InsertProduct
  | UpdateProduct
  | DeleteProduct
  | SelectSummary
  | SelectLowStock
  | SelectNow

datatype event =
    Connect
  | ConnectRejected js_error
  | Query stmt "jsval list"
  | PoolQuery stmt
  | Release
  | ConsoleError js_error

type_synonym 'db store = "stmt \<Rightarrow> jsval list \<Rightarrow> 'db \<Rightarrow> (js_error + row list) \<times> 'db"

text \<open>
  What a handler leaves behind: the response it sent (none when its promise rejects
  before any response), the trace of pool, store and console calls, and the store's state.
\<close>

type_synonym 'db outcome = "response option \<times> event list \<times> 'db"

subsection \<open>Validation middleware\<close>

datatype 'a middleware = Respond 'a | Next

definition validateProduct :: "body \<Rightarrow> response middleware" where
  "validateProduct b =
     (let stock_code = get_prop b ''stock_code'';
          description = get_prop b ''description'';
          unit_price = get_prop b ''unit_price''
      in if \<not> ToBoolean stock_code \<or> \<not> ToBoolean description
         then Respond (res_json 400
                [(''error'', JVal (JStr ''Missing required fields: stock_code and description''))])
         else if unit_price \<noteq> JUndefined \<and> (isNaN unit_price \<or> le_zero unit_price)
         then Respond (res_json 400 [(''error'', JVal (JStr ''unit_price must be a positive number''))])
         else Next)"

subsection \<open>Centralized DB error handler\<close>

definition handleDatabaseError :: "js_error \<Rightarrow> response" where
  "handleDatabaseError error =
     (if code error = Some ''23505'' then res_json 409 [(''error'', JVal (JStr ''Duplicate entry detected''))]
      else if code error = Some ''23503'' then res_json 400 [(''error'', JVal (JStr ''Invalid foreign key reference''))]
      else if code error = Some ''23514'' then res_json 400 [(''error'', JVal (JStr ''Check constraint violation''))]
      else res_json 500 [(''error'', JVal (JStr ''Internal server error''))])"

subsection \<open>Pool and client\<close>

text \<open>
  \<open>client.query\<close>: the statement goes to the store, which answers with rows or throws.
\<close>

definition client_query ::
  "'db store \<Rightarrow> stmt \<Rightarrow> jsval list \<Rightarrow> 'db \<Rightarrow> (js_error + row list) \<times> event list \<times> 'db" where
  "client_query store q params d = (case store q params d of (r, d') \<Rightarrow> (r, [Query q params], d'))"

text \<open>
  The shape shared by the seven product handlers: \<open>await pool.connect()\<close> before the
  \<open>try\<close> (a rejection there leaves the handler with no response and no client), then the
  body, \<open>catch (error) { handleDatabaseError(error, res) }\<close> and
  \<open>finally { client.release() }\<close>.
\<close>

definition try_catch_finally ::
  "(js_error + response) \<times> event list \<times> 'db \<Rightarrow> 'db outcome" where
  "try_catch_finally r =
     (case r of
        (Inl error, evs, d) \<Rightarrow> (Some (handleDatabaseError error), evs @ [ConsoleError error, Release], d)
      | (Inr rsp, evs, d) \<Rightarrow> (Some rsp, evs @ [Release], d))"

definition with_client ::
  "js_error option \<Rightarrow> ('db \<Rightarrow> (js_error + response) \<times> event list \<times> 'db) \<Rightarrow> 'db \<Rightarrow> 'db outcome" where
  "with_client connect try_body d =
     (case connect of
        Some e \<Rightarrow> (None, [ConnectRejected e], d)
      | None \<Rightarrow> (case try_catch_finally (try_body d) of (r, evs, d') \<Rightarrow> (r, Connect # evs, d')))"

subsection \<open>Route handlers\<close>

definition upper_char :: "char \<Rightarrow> char" where
  "upper_char c = (if 97 \<le> (of_char c :: nat) \<and> (of_char c :: nat) \<le> 122
                   then char_of (of_char c - (32 :: nat)) else c)"

definition lower_char :: "char \<Rightarrow> char" where
  "lower_char c = (if 65 \<le> (of_char c :: nat) \<and> (of_char c :: nat) \<le> 90
                   then char_of (of_char c + (32 :: nat)) else c)"

definition toUpperCase :: "string \<Rightarrow> string" where
  "toUpperCase s = map upper_char s"

definition toLowerCase :: "string \<Rightarrow> string" where
  "toLowerCase s = map lower_char s"

text \<open>
  \<open>sort_order.toUpperCase()\<close>: a string has that function; an array or object parsed from
  the query string has no callable property of that name, and the call throws a TypeError.
\<close>

definition call_toUpperCase :: "qval \<Rightarrow> js_error + string" where
  "call_toUpperCase v =
     (case v of
        QStr s \<Rightarrow> Inr (toUpperCase s)
      | QObj _ \<Rightarrow> Inl \<lparr>code = None, message = ''sort_order.toUpperCase is not a function''\<rparr>)"

fun template_string :: "qval \<Rightarrow> string" where
  "template_string (QStr s) = s"
| "template_string (QObj s) = s"

definition validSort :: "string list" where
  "validSort = [''product_id'', ''stock_code'', ''description'', ''unit_price'']"

text \<open>\<open>validSort.includes(sort_by)\<close> compares with SameValueZero: only a string can be found.\<close>

definition array_includes :: "string list \<Rightarrow> qval \<Rightarrow> bool" where
  "array_includes xs v = (case v of QStr s \<Rightarrow> s \<in> set xs | QObj _ \<Rightarrow> False)"

definition first_row :: "row list \<Rightarrow> json" where
  "first_row rows = (case rows of [] \<Rightarrow> JVal JUndefined | r # _ \<Rightarrow> JRow r)"

definition not_found :: response where
  "not_found = res_json 404 [(''error'', JVal (JStr ''Product not found''))]"

text \<open>
  \<open>app.get('/api/products')\<close>, the body of the \<open>try\<close>. Its first half reads the query
  string and builds the statement and its parameters; it throws when \<open>sort_order\<close> has no
  \<open>toUpperCase\<close>.
\<close>

definition products_query :: "query \<Rightarrow> js_error + stmt \<times> jsval list" where
  "products_query q =
     (let page = (case map_of q ''page'' of None \<Rightarrow> JNum (Fin 1) | Some v \<Rightarrow> to_js v);
          limit = (case map_of q ''limit'' of None \<Rightarrow> JNum (Fin 10) | Some v \<Rightarrow> to_js v);
          search = (case map_of q ''search'' of None \<Rightarrow> QStr [] | Some v \<Rightarrow> v);
          sort_by = (case map_of q ''sort_by'' of None \<Rightarrow> QStr ''stock_code'' | Some v \<Rightarrow> v);
          sort_order = (case map_of q ''sort_order'' of None \<Rightarrow> QStr ''ASC'' | Some v \<Rightarrow> v);
          offset = num_mul (num_sub (ToNumber page) (Fin 1)) (ToNumber limit);
          sortColumn = (if array_includes validSort sort_by then template_string sort_by else ''stock_code'')
      in case call_toUpperCase sort_order of
           Inl error \<Rightarrow> Inl error
         | Inr upper \<Rightarrow>
             let order = (if upper = ''DESC'' then ''DESC'' else ''ASC'');
                 whereClause = (if ToBoolean (to_js search)
                                then ''WHERE stock_code ILIKE $1 OR description ILIKE $1'' else []);
                 params = (if ToBoolean (to_js search)
                           then [JStr (''%'' @ template_string search @ ''%'')] else [])
             in Inr (SelectProducts whereClause sortColumn order (length params + 1) (length params + 2),
                     params @ [limit, JNum offset]))"

definition get_products_try ::
  "'db store \<Rightarrow> query \<Rightarrow> 'db \<Rightarrow> (js_error + response) \<times> event list \<times> 'db" where
  "get_products_try store q d =
     (case products_query q of
        Inl error \<Rightarrow> (Inl error, [], d)
      | Inr (query, params) \<Rightarrow>
          (case client_query store query params d of
             (Inl error, evs, d') \<Rightarrow> (Inl error, evs, d')
           | (Inr rows, evs, d') \<Rightarrow>
               (Inr (res_json 200 [(''success'', JVal (JBool True)), (''data'', JRows rows)]), evs, d')))"

text \<open>\<open>app.get('/api/products/:id')\<close>.\<close>

definition product_lookup :: "string \<Rightarrow> stmt \<times> jsval list" where
  "product_lookup id' =
     (let isNumeric = (\<not> isNaN (JStr id'));
          searchField = (if isNumeric then ''product_id'' else ''stock_code'')
      in (SelectProductBy searchField, [if isNumeric then JNum (parseInt id') else JStr id']))"

definition get_product_try ::
  "'db store \<Rightarrow> string \<Rightarrow> 'db \<Rightarrow> (js_error + response) \<times> event list \<times> 'db" where
  "get_product_try store id' d =
     (case product_lookup id' of
        (query, params) \<Rightarrow>
          (case client_query store query params d of
             (Inl error, evs, d') \<Rightarrow> (Inl error, evs, d')
           | (Inr rows, evs, d') \<Rightarrow>
               if length rows = 0 then (Inr not_found, evs, d')
               else (Inr (res_json 200 [(''success'', JVal (JBool True)), (''data'', first_row rows)]),
                     evs, d')))"

text \<open>\<open>app.post('/api/products')\<close>, after \<open>validateProduct\<close>.\<close>

definition post_product_try ::
  "'db store \<Rightarrow> body \<Rightarrow> 'db \<Rightarrow> (js_error + response) \<times> event list \<times> 'db" where
  "post_product_try store b d =
     (case client_query store InsertProduct
             [get_prop b ''stock_code'', get_prop b ''description'', get_prop b ''unit_price''] d of
        (Inl error, evs, d') \<Rightarrow> (Inl error, evs, d')
      | (Inr rows, evs, d') \<Rightarrow>
          (Inr (res_json 201 [(''success'', JVal (JBool True)), (''data'', first_row rows)]), evs, d'))"

text \<open>\<open>app.put('/api/products/:id')\<close>, after \<open>validateProduct\<close>.\<close>

definition put_product_try ::
  "'db store \<Rightarrow> string \<Rightarrow> body \<Rightarrow> 'db \<Rightarrow> (js_error + response) \<times> event list \<times> 'db" where
  "put_product_try store id' b d =
     (case client_query store UpdateProduct
             [get_prop b ''stock_code'', get_prop b ''description'', get_prop b ''unit_price'', JStr id'] d of
        (Inl error, evs, d') \<Rightarrow> (Inl error, evs, d')
      | (Inr rows, evs, d') \<Rightarrow>
          if length rows = 0 then (Inr not_found, evs, d')
          else (Inr (res_json 200 [(''success'', JVal (JBool True)), (''data'', first_row rows)]), evs, d'))"

text \<open>\<open>app.delete('/api/products/:id')\<close>.\<close>

definition delete_product_try ::
  "'db store \<Rightarrow> string \<Rightarrow> 'db \<Rightarrow> (js_error + response) \<times> event list \<times> 'db" where
  "delete_product_try store id' d =
     (case client_query store DeleteProduct [JStr id'] d of
        (Inl error, evs, d') \<Rightarrow> (Inl error, evs, d')
      | (Inr rows, evs, d') \<Rightarrow>
          if length rows = 0 then (Inr not_found, evs, d')
          else (Inr (res_json 200 [(''success'', JVal (JBool True)),
                                   (''message'', JVal (JStr ''Product deleted'')),
                                   (''data'', first_row rows)]), evs, d'))"

text \<open>\<open>app.get('/api/products/analytics/summary')\<close>.\<close>

definition summary_try ::
  "'db store \<Rightarrow> 'db \<Rightarrow> (js_error + response) \<times> event list \<times> 'db" where
  "summary_try store d =
     (case client_query store SelectSummary [] d of
        (Inl error, evs, d') \<Rightarrow> (Inl error, evs, d')
      | (Inr rows, evs, d') \<Rightarrow>
          (Inr (res_json 200 [(''success'', JVal (JBool True)), (''data'', first_row rows)]), evs, d'))"

text \<open>\<open>app.get('/api/products/low-stock')\<close>.\<close>

definition low_stock_try ::
  "'db store \<Rightarrow> 'db \<Rightarrow> (js_error + response) \<times> event list \<times> 'db" where
  "low_stock_try store d =
     (case client_query store SelectLowStock [] d of
        (Inl error, evs, d') \<Rightarrow> (Inl error, evs, d')
      | (Inr rows, evs, d') \<Rightarrow>
          (Inr (res_json 200 [(''success'', JVal (JBool True)), (''data'', JRows rows)]), evs, d'))"

text \<open>
  \<open>app.get('/api/health')\<close>: \<open>pool.query\<close> checks a client out and back in by itself;
  \<open>result.rows[0].current_time\<close> throws a TypeError when there is no row.
\<close>

definition column :: "row \<Rightarrow> string \<Rightarrow> jsval" where
  "column r k = (case r of Columns kv \<Rightarrow> get_prop kv k | _ \<Rightarrow> JUndefined)"

definition unhealthy :: "js_error \<Rightarrow> response" where
  "unhealthy error = res_json 500 [(''success'', JVal (JBool False)),
                                   (''status'', JVal (JStr ''unhealthy'')),
                                   (''error'', JVal (JStr (message error)))]"

definition health :: "'db store \<Rightarrow> 'db \<Rightarrow> 'db outcome" where
  "health store d =
     (case store SelectNow [] d of
        (Inl error, d') \<Rightarrow> (Some (unhealthy error), [PoolQuery SelectNow], d')
      | (Inr rows, d') \<Rightarrow>
          (case rows of
             [] \<Rightarrow> (Some (unhealthy \<lparr>code = None,
                      message = ''Cannot read properties of undefined (reading 'current_time')''\<rparr>),
                    [PoolQuery SelectNow], d')
           | r # _ \<Rightarrow>
               (Some (res_json 200 [(''success'', JVal (JBool True)),
                                    (''status'', JVal (JStr ''healthy'')),
                                    (''timestamp'', JVal (column r ''current_time''))]),
                [PoolQuery SelectNow], d')))"

subsection \<open>The router\<close>

text \<open>
  Express tries the routes in the order of their registration and hands the request to
  the first one whose verb and path match; no handler of index.js passes the request
  on. A path is given by its decoded segments. A literal segment matches without regard
  to case, a parameter segment matches any one segment.
\<close>

datatype http_method = GET | POST | PUT | DELETE

datatype seg = Lit string | Param string

datatype route = ListRoute | ByIdRoute | CreateRoute | UpdateRoute | DeleteRoute
  | SummaryRoute | LowStockRoute | HealthRoute

fun match_path :: "seg list \<Rightarrow> string list \<Rightarrow> (string \<times> string) list option" where
  "match_path [] [] = Some []"
| "match_path (Lit l # ps) (s # ss) =
     (if toLowerCase l = toLowerCase s then match_path ps ss else None)"
| "match_path (Param n # ps) (s # ss) =
     (case match_path ps ss of None \<Rightarrow> None | Some m \<Rightarrow> Some ((n, s) # m))"
| "match_path _ _ = None"

definition routes :: "(http_method \<times> seg list \<times> route) list" where
  "routes =
     [(GET, [Lit ''api'', Lit ''products''], ListRoute),
      (GET, [Lit ''api'', Lit ''products'', Param ''id''], ByIdRoute),
      (POST, [Lit ''api'', Lit ''products''], CreateRoute),
      (PUT, [Lit ''api'', Lit ''products'', Param ''id''], UpdateRoute),
      (DELETE, [Lit ''api'', Lit ''products'', Param ''id''], DeleteRoute),
      (GET, [Lit ''api'', Lit ''products'', Lit ''analytics'', Lit ''summary''], SummaryRoute),
      (GET, [Lit ''api'', Lit ''products'', Lit ''low-stock''], LowStockRoute),
      (GET, [Lit ''api'', Lit ''health''], HealthRoute)]"

fun dispatch_in ::
  "(http_method \<times> seg list \<times> route) list \<Rightarrow> http_method \<Rightarrow> string list \<Rightarrow> (route \<times> (string \<times> string) list) option" where
  "dispatch_in [] m p = None"
| "dispatch_in ((m', pat, r) # rest) m p =
     (if m' = m then (case match_path pat p of Some ps \<Rightarrow> Some (r, ps) | None \<Rightarrow> dispatch_in rest m p)
      else dispatch_in rest m p)"

definition dispatch :: "http_method \<Rightarrow> string list \<Rightarrow> (route \<times> (string \<times> string) list) option" where
  "dispatch = dispatch_in routes"

record request =
  req_method :: http_method
  req_path :: "string list"
  req_query :: query
  req_body :: body

definition path_param :: "(string \<times> string) list \<Rightarrow> string \<Rightarrow> string" where
  "path_param ps k = (case map_of ps k of None \<Rightarrow> [] | Some s \<Rightarrow> s)"

text \<open>
  One request against the application. \<open>connect\<close> is what \<open>pool.connect()\<close> does for this
  request: \<open>None\<close> when it hands out a client, \<open>Some e\<close> when it rejects with \<open>e\<close>. A request
  that no route of index.js matches gets no response from index.js.
\<close>

definition run_route ::
  "'db store \<Rightarrow> js_error option \<Rightarrow> route \<Rightarrow> (string \<times> string) list \<Rightarrow> request \<Rightarrow> 'db \<Rightarrow> 'db outcome" where
  "run_route store connect r ps req d =
     (case r of
        ListRoute \<Rightarrow> with_client connect (get_products_try store (req_query req)) d
      | ByIdRoute \<Rightarrow> with_client connect (get_product_try store (path_param ps ''id'')) d
      | CreateRoute \<Rightarrow>
          (case validateProduct (req_body req) of
             Respond rsp \<Rightarrow> (Some rsp, [], d)
           | Next \<Rightarrow> with_client connect (post_product_try store (req_body req)) d)
      | UpdateRoute \<Rightarrow>
          (case validateProduct (req_body req) of
             Respond rsp \<Rightarrow> (Some rsp, [], d)
           | Next \<Rightarrow> with_client connect (put_product_try store (path_param ps ''id'') (req_body req)) d)
      | DeleteRoute \<Rightarrow> with_client connect (delete_product_try store (path_param ps ''id'')) d
      | SummaryRoute \<Rightarrow> with_client connect (summary_try store) d
      | LowStockRoute \<Rightarrow> with_client connect (low_stock_try store) d
      | HealthRoute \<Rightarrow> health store d)"

definition serve :: "'db store \<Rightarrow> js_error option \<Rightarrow> request \<Rightarrow> 'db \<Rightarrow> 'db outcome" where
  "serve store connect req d =
     (case dispatch (req_method req) (req_path req) of
        None \<Rightarrow> (None, [], d)
      | Some (r, ps) \<Rightarrow> run_route store connect r ps req d)"

subsection \<open>PostgreSQL's reading of the statements\<close>

text \<open>
  Modelled from the spec: the schema of \<open>products\<close> is not part of the repository. The
  table is a list of product rows; \<open>product_id\<close> is a 32-bit integer column,
  \<open>stock_code\<close> and \<open>description\<close> are text and not null, \<open>unit_price\<close> is a nullable
  numeric, \<open>stock_quantity\<close> and \<open>reorder_level\<close> are integers and not null.
  Text is compared bytewise and without regard to ASCII case under ILIKE; rows that
  compare equal under ORDER BY keep their table order.
\<close>

type_synonym products = "product list"

definition invalid_text_representation :: js_error where
  "invalid_text_representation = \<lparr>code = Some ''22P02'', message = ''invalid input syntax for type integer''\<rparr>"

definition numeric_value_out_of_range :: js_error where
  "numeric_value_out_of_range = \<lparr>code = Some ''22003'', message = ''value out of range for type integer''\<rparr>"

definition invalid_row_count_in_limit_clause :: js_error where
  "invalid_row_count_in_limit_clause = \<lparr>code = Some ''2201W'', message = ''LIMIT must not be negative''\<rparr>"

definition invalid_row_count_in_result_offset_clause :: js_error where
  "invalid_row_count_in_result_offset_clause = \<lparr>code = Some ''2201X'', message = ''OFFSET must not be negative''\<rparr>"

datatype pgint = PgNull | PgInt int | PgError js_error

definition in_int_range :: "nat \<Rightarrow> int \<Rightarrow> bool" where
  "in_int_range bits v = (- (2 ^ (bits - 1)) \<le> v \<and> v < 2 ^ (bits - 1))"

text \<open>
  The input function of the integer types on a text parameter: white space, an optional
  sign, decimal digits, white space. (From version 16 on PostgreSQL also reads
  hexadecimal, octal and binary literals and underscores; they are rejected here.)
\<close>

definition int_in :: "nat \<Rightarrow> string \<Rightarrow> pgint" where
  "int_in bits s =
     (let t = dropWhile StrWhiteSpaceChar s;
          neg = (case t of [] \<Rightarrow> False | c # _ \<Rightarrow> c = CHR ''-'');
          u = (case t of [] \<Rightarrow> [] | c # r \<Rightarrow> if c = CHR ''+'' \<or> c = CHR ''-'' then r else t);
          ds = takeWhile DecimalDigit u;
          rest = dropWhile DecimalDigit u;
          v = (if neg then - int (radix_value 10 ds) else int (radix_value 10 ds))
      in if ds = [] \<or> \<not> list_all StrWhiteSpaceChar rest then PgError invalid_text_representation
         else if in_int_range bits v then PgInt v
         else PgError numeric_value_out_of_range)"

text \<open>
  A parameter bound to an integer placeholder. The driver sends undefined and null as
  NULL, a string as it is, a number and a boolean through \<open>toString\<close> (an integer below
  \<open>10^21\<close> prints as its digits; a fraction, an exponent form, \<open>NaN\<close>, \<open>Infinity\<close>,
  \<open>true\<close> and \<open>false\<close> are no integer syntax), and an array or object as an array literal
  or JSON text, which is no integer syntax either.
\<close>

definition pg_int_param :: "nat \<Rightarrow> jsval \<Rightarrow> pgint" where
  "pg_int_param bits v =
     (case v of
        JUndefined \<Rightarrow> PgNull
      | JNull \<Rightarrow> PgNull
      | JStr s \<Rightarrow> int_in bits s
      | JNum (Fin q) \<Rightarrow>
          if q = of_int \<lfloor>q\<rfloor> \<and> \<bar>q\<bar> < 10 ^ 21
          then (if in_int_range bits \<lfloor>q\<rfloor> then PgInt \<lfloor>q\<rfloor> else PgError numeric_value_out_of_range)
          else PgError invalid_text_representation
      | _ \<Rightarrow> PgError invalid_text_representation)"

text \<open>
  LIKE: \<open>%\<close> matches any sequence, \<open>_\<close> any one character, and a backslash makes the next
  pattern character literal. (PostgreSQL raises an error on a pattern that ends in a lone
  backslash; a pattern that ends in \<open>%\<close> has none.)
\<close>

fun like_match :: "string \<Rightarrow> string \<Rightarrow> bool" where
  "like_match [] t = (t = [])"
| "like_match (p # ps) t =
     (if p = CHR ''%'' then
        like_match ps t \<or> (case t of [] \<Rightarrow> False | _ # ts \<Rightarrow> like_match (p # ps) ts)
      else if p = CHR ''_'' then
        (case t of [] \<Rightarrow> False | _ # ts \<Rightarrow> like_match ps ts)
      else if p = CHR 0x5C then
        (case ps of
           [] \<Rightarrow> False
         | e # ps' \<Rightarrow> (case t of [] \<Rightarrow> False | c # ts \<Rightarrow> c = e \<and> like_match ps' ts))
      else
        (case t of [] \<Rightarrow> False | c # ts \<Rightarrow> c = p \<and> like_match ps ts))"

definition ilike :: "string \<Rightarrow> string \<Rightarrow> bool" where
  "ilike t pattern = like_match (toLowerCase pattern) (toLowerCase t)"

text \<open>The WHERE clause of the list statement, when there is one.\<close>

definition where_ilike :: "string \<Rightarrow> products \<Rightarrow> products" where
  "where_ilike pattern tbl = filter (\<lambda>p. ilike (stock_code p) pattern \<or> ilike (description p) pattern) tbl"

text \<open>ORDER BY one of the four sortable columns; nulls sort as larger than any value.\<close>

definition order_by :: "string \<Rightarrow> string \<Rightarrow> products \<Rightarrow> products" where
  "order_by col ord rows =
     (let asc = (if col = ''product_id'' then sort_key product_id rows
                 else if col = ''stock_code'' then sort_key stock_code rows
                 else if col = ''description'' then sort_key description rows
                 else if col = ''unit_price''
                      then sort_key (\<lambda>p. case unit_price p of None \<Rightarrow> 0 | Some u \<Rightarrow> u)
                             (filter (\<lambda>p. unit_price p \<noteq> None) rows)
                           @ filter (\<lambda>p. unit_price p = None) rows
                 else rows)
      in if ord = ''DESC'' then rev asc else asc)"

text \<open>
  LIMIT and OFFSET: both parameters are bound as 64-bit integers (a failure there is the
  statement's error), a negative OFFSET and then a negative LIMIT are refused, NULL
  means no limit and no offset.
\<close>

definition limit_offset :: "jsval \<Rightarrow> jsval \<Rightarrow> 'a list \<Rightarrow> js_error + 'a list" where
  "limit_offset limit offset rows =
     (case pg_int_param 64 limit of
        PgError e \<Rightarrow> Inl e
      | l \<Rightarrow>
          (case pg_int_param 64 offset of
             PgError e \<Rightarrow> Inl e
           | ofs \<Rightarrow>
               let skipped = (case ofs of PgInt n \<Rightarrow> drop (nat n) rows | _ \<Rightarrow> rows)
               in if (case ofs of PgInt n \<Rightarrow> n < 0 | _ \<Rightarrow> False)
                  then Inl invalid_row_count_in_result_offset_clause
                  else if (case l of PgInt n \<Rightarrow> n < 0 | _ \<Rightarrow> False)
                  then Inl invalid_row_count_in_limit_clause
                  else Inr (case l of PgInt n \<Rightarrow> take (nat n) skipped | _ \<Rightarrow> skipped)))"

definition low_stock_rows :: "products \<Rightarrow> row list" where
  "low_stock_rows tbl =
     map (\<lambda>p. LowStockRow (product_id p) (stock_code p) (description p) (stock_quantity p) (reorder_level p))
       (sort_key stock_quantity (filter (\<lambda>p. stock_quantity p \<le> reorder_level p) tbl))"

text \<open>
  The store as PostgreSQL answers the statements of the read endpoints and a DELETE whose
  parameter is no integer. Every other statement, and a statement that index.js never
  builds, is answered by \<open>other\<close>, about which nothing is assumed.
\<close>

definition pg_store :: "products store \<Rightarrow> products store" where
  "pg_store other q params tbl =
     (case q of
        SelectProducts whereClause sortColumn order li oi \<Rightarrow>
          if sortColumn \<in> set validSort \<and> (order = ''ASC'' \<or> order = ''DESC'') then
            if whereClause = [] \<and> li = 1 \<and> oi = 2 then
              (case params of
                 [limit, offset] \<Rightarrow>
                   (map_sum id (map ProductRow) (limit_offset limit offset (order_by sortColumn order tbl)), tbl)
               | _ \<Rightarrow> other q params tbl)
            else if whereClause = ''WHERE stock_code ILIKE $1 OR description ILIKE $1'' \<and> li = 2 \<and> oi = 3 then
              (case params of
                 [JStr pattern, limit, offset] \<Rightarrow>
                   (map_sum id (map ProductRow)
                      (limit_offset limit offset (order_by sortColumn order (where_ilike pattern tbl))), tbl)
               | _ \<Rightarrow> other q params tbl)
            else other q params tbl
          else other q params tbl
      | SelectProductBy searchField \<Rightarrow>
          (case params of
             [v] \<Rightarrow>
               if searchField = ''product_id'' then
                 (case pg_int_param 32 v of
                    PgError e \<Rightarrow> (Inl e, tbl)
                  | PgNull \<Rightarrow> (Inr [], tbl)
                  | PgInt i \<Rightarrow> (Inr (map ProductRow (filter (\<lambda>p. product_id p = i) tbl)), tbl))
               else if searchField = ''stock_code'' then
                 (case v of
                    JStr s \<Rightarrow> (Inr (map ProductRow (filter (\<lambda>p. stock_code p = s) tbl)), tbl)
                  | _ \<Rightarrow> other q params tbl)
               else other q params tbl
           | _ \<Rightarrow> other q params tbl)
      | SelectLowStock \<Rightarrow>
          (if params = [] then (Inr (low_stock_rows tbl), tbl) else other q params tbl)
      | DeleteProduct \<Rightarrow>
          (case params of
             [v] \<Rightarrow> (case pg_int_param 32 v of PgError e \<Rightarrow> (Inl e, tbl) | _ \<Rightarrow> other q params tbl)
           | _ \<Rightarrow> other q params tbl)
      | _ \<Rightarrow> other q params tbl)"

subsection \<open>Predicates of the specification\<close>

text \<open>
  A trace releases what it acquired: as many releases as connects, at most one connect,
  and when there is one it opens the trace and the release closes it.
\<close>

definition released_exactly_once :: "event list \<Rightarrow> bool" where
  "released_exactly_once evs =
     (count_list evs Release = count_list evs Connect \<and> count_list evs Connect \<le> 1 \<and>
      (Connect \<in> set evs \<longrightarrow> hd evs = Connect \<and> last evs = Release))"

definition no_pool_events :: "event list \<Rightarrow> bool" where
  "no_pool_events evs = (Connect \<notin> set evs \<and> Release \<notin> set evs)"

text \<open>The status and the message that the specification gives each class of store error.\<close>

definition mapped_status :: "string option \<Rightarrow> nat" where
  "mapped_status c =
     (if c = Some ''23505'' then 409
      else if c = Some ''23503'' then 400
      else if c = Some ''23514'' then 400
      else 500)"

definition generic_message :: "string option \<Rightarrow> string" where
  "generic_message c =
     (if c = Some ''23505'' then ''Duplicate entry detected''
      else if c = Some ''23503'' then ''Invalid foreign key reference''
      else if c = Some ''23514'' then ''Check constraint violation''
      else ''Internal server error'')"


text \<open>
  A try body hands a store error on: when the store answered the statement of the trace
  with an error, that error is what the body throws.
\<close>

definition throws_store_error ::
  "'db store \<Rightarrow> 'db \<Rightarrow> (js_error + response) \<times> event list \<times> 'db \<Rightarrow> bool" where
  "throws_store_error store d b =
     (\<forall>q params e. Query q params \<in> set (fst (snd b)) \<and> fst (store q params d) = Inl e \<longrightarrow> fst b = Inl e)"

text \<open>
  The response envelope of the specification: a boolean \<open>success\<close>, and no field beside
  \<open>success\<close>, \<open>data\<close>, \<open>error\<close> and \<open>message\<close>.
\<close>

definition json_envelope :: "response \<Rightarrow> bool" where
  "json_envelope r =
     ((case map_of (json_body r) ''success'' of Some (JVal (JBool b)) \<Rightarrow> True | _ \<Rightarrow> False) \<and>
      list_all (\<lambda>k. k \<in> set [''success'', ''data'', ''error'', ''message'']) (map fst (json_body r)))"

text \<open>The three shapes that the responses of index.js have.\<close>

definition success_shape :: "response \<Rightarrow> bool" where
  "success_shape r =
     (status r \<in> set [200, 201] \<and>
      map_of (json_body r) ''success'' = Some (JVal (JBool True)) \<and>
      list_all (\<lambda>k. k \<in> set [''success'', ''data'', ''message'']) (map fst (json_body r)))"

definition error_shape :: "response \<Rightarrow> bool" where
  "error_shape r =
     (status r \<in> set [400, 404, 409, 500] \<and>
      (case json_body r of [(k, JVal (JStr m))] \<Rightarrow> k = ''error'' | _ \<Rightarrow> False))"

definition health_shape :: "response \<Rightarrow> bool" where
  "health_shape r =
     ((case map_of (json_body r) ''success'' of Some (JVal (JBool b)) \<Rightarrow> True | _ \<Rightarrow> False) \<and>
      list_all (\<lambda>k. k \<in> set [''success'', ''status'', ''timestamp'', ''error'']) (map fst (json_body r)))"

definition product_shape :: "(js_error + response) \<times> event list \<times> 'db \<Rightarrow> bool" where
  "product_shape b = (case fst b of Inl e \<Rightarrow> True | Inr r \<Rightarrow> success_shape r \<or> error_shape r)"



text \<open>
  A string of decimal digits, and a string that parses fully as an integer: an optional
  sign and then decimal digits.
\<close>

definition digits :: "string \<Rightarrow> bool" where
  "digits s = (s \<noteq> [] \<and> list_all DecimalDigit s)"

definition integer_string :: "string \<Rightarrow> bool" where
  "integer_string s =
     digits (case s of [] \<Rightarrow> [] | c # r \<Rightarrow> if c = CHR ''+'' \<or> c = CHR ''-'' then r else s)"

text \<open>
  A search string with no character that LIKE reads specially, and containment of one
  string in another as a substring without regard to case.
\<close>

definition plain :: "string \<Rightarrow> bool" where
  "plain s = list_all (\<lambda>c. c \<noteq> CHR ''%'' \<and> c \<noteq> CHR ''_'' \<and> c \<noteq> CHR 0x5C) s"

definition contains_ci :: "string \<Rightarrow> string \<Rightarrow> bool" where
  "contains_ci s t = sublist (toLowerCase s) (toLowerCase t)"

definition eq_ignore_case :: "string \<Rightarrow> string \<Rightarrow> bool" where
  "eq_ignore_case a b = (toLowerCase a = toLowerCase b)"

text \<open>The values that the list handler reads from the query string, by name.\<close>

definition page_value :: "query \<Rightarrow> jsval" where
  "page_value q = (case map_of q ''page'' of None \<Rightarrow> JNum (Fin 1) | Some v \<Rightarrow> to_js v)"

definition limit_value :: "query \<Rightarrow> jsval" where
  "limit_value q = (case map_of q ''limit'' of None \<Rightarrow> JNum (Fin 10) | Some v \<Rightarrow> to_js v)"

definition search_value :: "query \<Rightarrow> qval" where
  "search_value q = (case map_of q ''search'' of None \<Rightarrow> QStr [] | Some v \<Rightarrow> v)"

definition offset_value :: "query \<Rightarrow> number" where
  "offset_value q = num_mul (num_sub (ToNumber (page_value q)) (Fin 1)) (ToNumber (limit_value q))"

definition sort_by_column :: "query \<Rightarrow> string" where
  "sort_by_column q =
     (case map_of q ''sort_by'' of
        Some (QStr s) \<Rightarrow> if s \<in> set validSort then s else ''stock_code''
      | _ \<Rightarrow> ''stock_code'')"

definition sort_order_text :: "query \<Rightarrow> string option" where
  "sort_order_text q =
     (case map_of q ''sort_order'' of
        None \<Rightarrow> Some ''ASC''
      | Some (QStr s) \<Rightarrow> Some s
      | Some (QObj _) \<Rightarrow> None)"


text \<open>The rows that the WHERE clause of a list request leaves.\<close>

definition search_filter :: "query \<Rightarrow> products \<Rightarrow> products" where
  "search_filter q tbl =
     (if ToBoolean (to_js (search_value q))
      then where_ilike (''%'' @ template_string (search_value q) @ ''%'') tbl
      else tbl)"

text \<open>The response of the list handler for what the store answered.\<close>

definition listing :: "js_error + products \<Rightarrow> js_error + response" where
  "listing r = map_sum id (\<lambda>rows. res_json 200 [(''success'', JVal (JBool True)),
                                                 (''data'', JRows (map ProductRow rows))]) r"

text \<open>Fixtures for the concrete runs below.\<close>

definition widget :: product where
  "widget = \<lparr>product_id = 1, stock_code = ''A1'', description = ''Widget'', unit_price = Some 5,
              stock_quantity = 1, reorder_level = 5, is_active = True\<rparr>"

definition wool :: product where
  "wool = \<lparr>product_id = 12, stock_code = ''B2'', description = ''Wool'', unit_price = None,
            stock_quantity = 10, reorder_level = 5, is_active = True\<rparr>"

definition no_rows :: "products store" where
  "no_rows q params tbl = (Inr [], tbl)"

definition request_of :: "http_method \<Rightarrow> string list \<Rightarrow> query \<Rightarrow> body \<Rightarrow> request" where
  "request_of m p q b = \<lparr>req_method = m, req_path = p, req_query = q, req_body = b\<rparr>"

definition failing :: "js_error \<Rightarrow> 'db store" where
  "failing e q params d = (Inl e, d)"

definition refused :: js_error where
  "refused = \<lparr>code = Some ''ECONNREFUSED'', message = ''connect ECONNREFUSED 127.0.0.1:5432''\<rparr>"



section \<open>Verified properties\<close>

subsection \<open>The connection is released on every path\<close>

lemma try_catch_finally_events:
  assumes "no_pool_events (fst (snd b))"
  shows "released_exactly_once (Connect # fst (snd (try_catch_finally b)))"
  using assms
  by (cases b)
     (auto simp: try_catch_finally_def released_exactly_once_def no_pool_events_def split: sum.splits)

lemma with_client_events:
  assumes "\<And>d. no_pool_events (fst (snd (try_body d)))"
  shows "released_exactly_once (fst (snd (with_client connect try_body d)))"
proof (cases connect)
  case None
  then show ?thesis
    using try_catch_finally_events[of "try_body d"] assms
    by (cases "try_catch_finally (try_body d)") (simp add: with_client_def)
next
  case (Some e)
  then show ?thesis by (simp add: with_client_def released_exactly_once_def)
qed

lemma get_products_events: "no_pool_events (fst (snd (get_products_try store q d)))"
  by (auto simp: get_products_try_def client_query_def no_pool_events_def split: sum.splits prod.splits)

lemma get_product_events: "no_pool_events (fst (snd (get_product_try store i d)))"
  by (auto simp: get_product_try_def client_query_def no_pool_events_def split: sum.splits prod.splits)

lemma post_product_events: "no_pool_events (fst (snd (post_product_try store b d)))"
  by (auto simp: post_product_try_def client_query_def no_pool_events_def split: sum.splits prod.splits)

lemma put_product_events: "no_pool_events (fst (snd (put_product_try store i b d)))"
  by (auto simp: put_product_try_def client_query_def no_pool_events_def split: sum.splits prod.splits)

lemma delete_product_events: "no_pool_events (fst (snd (delete_product_try store i d)))"
  by (auto simp: delete_product_try_def client_query_def no_pool_events_def split: sum.splits prod.splits)

lemma summary_events: "no_pool_events (fst (snd (summary_try store d)))"
  by (auto simp: summary_try_def client_query_def no_pool_events_def split: sum.splits prod.splits)

lemma low_stock_events: "no_pool_events (fst (snd (low_stock_try store d)))"
  by (auto simp: low_stock_try_def client_query_def no_pool_events_def split: sum.splits prod.splits)

lemma health_events: "released_exactly_once (fst (snd (health store d)))"
  by (auto simp: health_def released_exactly_once_def split: sum.splits prod.splits list.splits)

text \<open>
  C8. For every handler (every route, also one the router never reaches), every store,
  every request and either outcome of \<open>pool.connect()\<close>, the trace of the handler holds
  exactly one release for the one connection it acquired, as its last event, and none
  when it acquired none: on success, on a 404, and when the store or the handler's own
  code throws. The health handler acquires no client itself.
\<close>

theorem connection_released_exactly_once:
  "released_exactly_once (fst (snd (run_route store connect r ps req d)))"
proof (cases r)
  case CreateRoute
  then show ?thesis
    by (cases "validateProduct (req_body req)")
       (simp_all add: run_route_def with_client_events post_product_events,
        simp add: released_exactly_once_def)
next
  case UpdateRoute
  then show ?thesis
    by (cases "validateProduct (req_body req)")
       (simp_all add: run_route_def with_client_events put_product_events,
        simp add: released_exactly_once_def)
qed (simp_all add: run_route_def with_client_events get_products_events get_product_events
      delete_product_events summary_events low_stock_events health_events)

theorem connection_released_exactly_once_witness:
  "fst (snd (run_route (pg_store no_rows) None DeleteRoute [(''id'', ''abc'')]
               (request_of DELETE [''api'', ''products'', ''abc''] [] []) [widget]))
     = [Connect, Query DeleteProduct [JStr ''abc''], ConsoleError invalid_text_representation, Release]
   \<and> released_exactly_once
        (fst (snd (run_route (pg_store no_rows) None DeleteRoute [(''id'', ''abc'')]
                     (request_of DELETE [''api'', ''products'', ''abc''] [] []) [widget])))"
proof -
  have "fst (snd (run_route (pg_store no_rows) None DeleteRoute [(''id'', ''abc'')]
               (request_of DELETE [''api'', ''products'', ''abc''] [] []) [widget]))
     = [Connect, Query DeleteProduct [JStr ''abc''], ConsoleError invalid_text_representation, Release]"
    by code_simp
  then show ?thesis
    using connection_released_exactly_once[of "pg_store no_rows" None DeleteRoute "[(''id'', ''abc'')]"
        "request_of DELETE [''api'', ''products'', ''abc''] [] []" "[widget]"]
    by simp
qed

subsection \<open>Store errors and their status\<close>

lemma handleDatabaseError_mapped:
  "handleDatabaseError e = res_json (mapped_status (code e)) [(''error'', JVal (JStr (generic_message (code e))))]"
  by (simp add: handleDatabaseError_def mapped_status_def generic_message_def)

lemma client_query_eq:
  "client_query store q params d = (fst (store q params d), [Query q params], snd (store q params d))"
  by (simp add: client_query_def split: prod.splits)

lemma get_products_throws: "throws_store_error store d (get_products_try store q d)"
  by (auto simp: throws_store_error_def get_products_try_def client_query_eq split: sum.splits prod.splits)

lemma get_product_throws: "throws_store_error store d (get_product_try store i d)"
  by (auto simp: throws_store_error_def get_product_try_def client_query_eq split: sum.splits prod.splits)

lemma post_product_throws: "throws_store_error store d (post_product_try store b d)"
  by (auto simp: throws_store_error_def post_product_try_def client_query_eq split: sum.splits prod.splits)

lemma put_product_throws: "throws_store_error store d (put_product_try store i b d)"
  by (auto simp: throws_store_error_def put_product_try_def client_query_eq split: sum.splits prod.splits)

lemma delete_product_throws: "throws_store_error store d (delete_product_try store i d)"
  by (auto simp: throws_store_error_def delete_product_try_def client_query_eq split: sum.splits prod.splits)

lemma summary_throws: "throws_store_error store d (summary_try store d)"
  by (auto simp: throws_store_error_def summary_try_def client_query_eq split: sum.splits prod.splits)

lemma low_stock_throws: "throws_store_error store d (low_stock_try store d)"
  by (auto simp: throws_store_error_def low_stock_try_def client_query_eq split: sum.splits prod.splits)

lemma with_client_throws:
  assumes "throws_store_error store d (try_body d)"
    and "with_client connect try_body d = (resp, evs, d')"
    and "Query q params \<in> set evs" and "fst (store q params d) = Inl e"
  shows "resp = Some (handleDatabaseError e) \<and> ConsoleError e \<in> set evs"
proof (cases connect)
  case (Some x)
  with assms show ?thesis by (auto simp: with_client_def)
next
  case None
  obtain x bevs bd where b: "try_body d = (x, bevs, bd)" by (cases "try_body d")
  show ?thesis
  proof (cases x)
    case (Inl e')
    with assms None b show ?thesis
      by (auto simp: with_client_def try_catch_finally_def throws_store_error_def)
  next
    case (Inr r)
    with assms None b show ?thesis
      by (auto simp: with_client_def try_catch_finally_def throws_store_error_def)
  qed
qed

lemma product_route_store_error:
  assumes "r \<noteq> HealthRoute"
    and "run_route store connect r ps req d = (resp, evs, d')"
    and "Query q params \<in> set evs"
    and "fst (store q params d) = Inl e"
  shows "resp = Some (handleDatabaseError e) \<and> ConsoleError e \<in> set evs"
proof -
  note wc = with_client_throws[where store = store and d = d and connect = connect and resp = resp
      and evs = evs and d' = d' and q = q and params = params and e = e]
  show ?thesis
  proof (cases r)
    case ListRoute
    with assms show ?thesis
      using wc[of "get_products_try store (req_query req)", OF get_products_throws]
      by (simp add: run_route_def)
  next
    case ByIdRoute
    with assms show ?thesis
      using wc[of "get_product_try store (path_param ps ''id'')", OF get_product_throws]
      by (simp add: run_route_def)
  next
    case CreateRoute
    with assms show ?thesis
      using wc[of "post_product_try store (req_body req)", OF post_product_throws]
      by (cases "validateProduct (req_body req)") (auto simp: run_route_def)
  next
    case UpdateRoute
    with assms show ?thesis
      using wc[of "put_product_try store (path_param ps ''id'') (req_body req)", OF put_product_throws]
      by (cases "validateProduct (req_body req)") (auto simp: run_route_def)
  next
    case DeleteRoute
    with assms show ?thesis
      using wc[of "delete_product_try store (path_param ps ''id'')", OF delete_product_throws]
      by (simp add: run_route_def)
  next
    case SummaryRoute
    with assms show ?thesis
      using wc[of "summary_try store", OF summary_throws] by (simp add: run_route_def)
  next
    case LowStockRoute
    with assms show ?thesis
      using wc[of "low_stock_try store", OF low_stock_throws] by (simp add: run_route_def)
  next
    case HealthRoute
    with assms show ?thesis by simp
  qed
qed

lemma health_store_error:
  "fst (store SelectNow [] d) = Inl e \<Longrightarrow>
     fst (run_route store connect HealthRoute ps req d) = Some (unhealthy e)"
  by (cases "store SelectNow [] d") (simp add: run_route_def health_def)

text \<open>
  C5, as the code has it. When the store throws \<open>e\<close> on the statement that one of the
  seven product handlers issued, the response is fixed by \<open>e.code\<close> alone: 409 for 23505,
  400 for 23503 and 23514, 500 for every other code, each with its fixed message and never
  the cause, and \<open>e\<close> is written to the console. The health handler is outside this
  mapping: it answers every store error with 500 and puts \<open>e.message\<close> in the body.
\<close>

theorem store_error_status:
  "(r \<noteq> HealthRoute \<and> run_route store connect r ps req d = (resp, evs, d')
      \<and> Query q params \<in> set evs \<and> fst (store q params d) = Inl e \<longrightarrow>
        resp = Some (res_json (mapped_status (code e)) [(''error'', JVal (JStr (generic_message (code e))))])
        \<and> ConsoleError e \<in> set evs)
   \<and> (fst (store SelectNow [] d) = Inl e \<longrightarrow>
        fst (run_route store connect HealthRoute ps req d)
          = Some (res_json 500 [(''success'', JVal (JBool False)), (''status'', JVal (JStr ''unhealthy'')),
                                (''error'', JVal (JStr (message e)))]))"
  using product_route_store_error[of r store connect ps req d resp evs d' q params e]
    health_store_error[of store d e connect ps req]
  by (simp add: handleDatabaseError_mapped unhealthy_def)

theorem store_error_status_witness:
  "run_route (pg_store no_rows) None DeleteRoute [(''id'', ''abc'')]
      (request_of DELETE [''api'', ''products'', ''abc''] [] []) [widget]
     = (Some (res_json 500 [(''error'', JVal (JStr ''Internal server error''))]),
        [Connect, Query DeleteProduct [JStr ''abc''], ConsoleError invalid_text_representation, Release],
        [widget])
   \<and> fst (pg_store no_rows DeleteProduct [JStr ''abc''] [widget]) = Inl invalid_text_representation
   \<and> mapped_status (code invalid_text_representation) = 500
   \<and> fst (failing refused SelectNow [] [widget]) = Inl refused
   \<and> fst (run_route (failing refused) None HealthRoute []
             (request_of GET [''api'', ''health''] [] []) [widget])
        = Some (res_json 500 [(''success'', JVal (JBool False)), (''status'', JVal (JStr ''unhealthy'')),
                              (''error'', JVal (JStr (message refused)))])"
proof -
  have run: "run_route (pg_store no_rows) None DeleteRoute [(''id'', ''abc'')]
      (request_of DELETE [''api'', ''products'', ''abc''] [] []) [widget]
     = (Some (res_json 500 [(''error'', JVal (JStr ''Internal server error''))]),
        [Connect, Query DeleteProduct [JStr ''abc''], ConsoleError invalid_text_representation, Release],
        [widget])"
    by code_simp
  have st: "fst (pg_store no_rows DeleteProduct [JStr ''abc''] [widget]) = Inl invalid_text_representation"
    by code_simp
  have ms: "mapped_status (code invalid_text_representation) = 500"
    by code_simp
  have fl: "fst (failing refused SelectNow [] [widget]) = Inl refused"
    by (simp add: failing_def)
  show ?thesis
    using store_error_status[where store = "failing refused" and d = "[widget]" and e = refused
        and connect = None and ps = "[]" and req = "request_of GET [''api'', ''health''] [] []"]
      store_error_status[where store = "pg_store no_rows" and d = "[widget]"
        and e = invalid_text_representation and r = DeleteRoute and connect = None
        and ps = "[(''id'', ''abc'')]" and req = "request_of DELETE [''api'', ''products'', ''abc''] [] []"
        and q = DeleteProduct and params = "[JStr ''abc'']"]
      run st ms fl
    by simp
qed

text \<open>
  C5 as stated fails at the health endpoint: the store refuses the connection, and the
  body of the 500 response carries the message of that error, not a generic one.
\<close>

theorem health_reports_raw_cause:
  "fst (run_route (failing refused) None HealthRoute []
          (request_of GET [''api'', ''health''] [] []) ([] :: products))
     = Some (res_json 500 [(''success'', JVal (JBool False)), (''status'', JVal (JStr ''unhealthy'')),
                           (''error'', JVal (JStr (message refused)))])
   \<and> res_json 500 [(''success'', JVal (JBool False)), (''status'', JVal (JStr ''unhealthy'')),
                           (''error'', JVal (JStr (message refused)))]
       \<noteq> res_json (mapped_status (code refused)) [(''error'', JVal (JStr (generic_message (code refused))))]"
  by (simp add: run_route_def health_def failing_def unhealthy_def res_json_def)

subsection \<open>The shape of the responses\<close>

lemma handleDatabaseError_shape: "error_shape (handleDatabaseError e)"
  by (simp add: handleDatabaseError_def error_shape_def res_json_def)

lemma not_found_shape: "error_shape not_found"
  by (simp add: not_found_def error_shape_def res_json_def)

lemma validateProduct_shape: "validateProduct b = Respond r \<Longrightarrow> error_shape r"
  by (auto simp: validateProduct_def error_shape_def res_json_def Let_def split: if_splits)

lemma data_shape:
  "n \<in> set [200, 201] \<Longrightarrow> success_shape (res_json n [(''success'', JVal (JBool True)), (''data'', v)])"
  by (auto simp: success_shape_def res_json_def)

lemma deleted_shape:
  "success_shape (res_json 200 [(''success'', JVal (JBool True)), (''message'', JVal (JStr m)), (''data'', v)])"
  by (auto simp: success_shape_def res_json_def)

lemma get_products_shape: "product_shape (get_products_try store q d)"
  by (simp add: product_shape_def get_products_try_def client_query_eq data_shape split: sum.splits prod.splits)

lemma get_product_shape: "product_shape (get_product_try store i d)"
  by (simp add: product_shape_def get_product_try_def client_query_eq data_shape not_found_shape
      split: sum.splits prod.splits)

lemma post_product_shape: "product_shape (post_product_try store b d)"
  by (simp add: product_shape_def post_product_try_def client_query_eq data_shape split: sum.splits)

lemma put_product_shape: "product_shape (put_product_try store i b d)"
  by (simp add: product_shape_def put_product_try_def client_query_eq data_shape not_found_shape
      split: sum.splits)

lemma delete_product_shape: "product_shape (delete_product_try store i d)"
  by (simp add: product_shape_def delete_product_try_def client_query_eq deleted_shape not_found_shape
      split: sum.splits)

lemma summary_shape: "product_shape (summary_try store d)"
  by (simp add: product_shape_def summary_try_def client_query_eq data_shape split: sum.splits)

lemma low_stock_shape: "product_shape (low_stock_try store d)"
  by (simp add: product_shape_def low_stock_try_def client_query_eq data_shape split: sum.splits)

lemma with_client_shape:
  assumes "product_shape (try_body d)" and "fst (with_client connect try_body d) = Some rsp"
  shows "success_shape rsp \<or> error_shape rsp"
proof (cases connect)
  case (Some x)
  with assms show ?thesis by (simp add: with_client_def)
next
  case None
  obtain x bevs bd where b: "try_body d = (x, bevs, bd)" by (cases "try_body d")
  show ?thesis
  proof (cases x)
    case (Inl e)
    with assms None b show ?thesis
      using handleDatabaseError_shape[of e]
      by (auto simp: with_client_def try_catch_finally_def)
  next
    case (Inr r)
    with assms None b show ?thesis
      by (auto simp: with_client_def try_catch_finally_def product_shape_def)
  qed
qed

lemma health_has_shape: "fst (health store d) = Some rsp \<Longrightarrow> health_shape rsp"
  by (auto simp: health_def health_shape_def unhealthy_def res_json_def
      split: prod.splits sum.splits list.splits)

text \<open>
  C9, as the code has it. Every response of a product handler is either a success
  response (status 200 or 201, \<open>success: true\<close>, and beside it only \<open>data\<close> and
  \<open>message\<close>) or an error response (status 400, 404, 409 or 500) whose body is the single
  field \<open>error\<close>, with no \<open>success\<close> field. Every response of the health handler has a
  boolean \<open>success\<close> and beside it only \<open>status\<close>, \<open>timestamp\<close> and \<open>error\<close>.
\<close>

theorem response_shapes:
  "fst (run_route store connect r ps req d) = Some rsp \<longrightarrow>
     (if r = HealthRoute then health_shape rsp else success_shape rsp \<or> error_shape rsp)"
proof (cases r)
  case ListRoute
  then show ?thesis
    using with_client_shape[of "get_products_try store (req_query req)", OF get_products_shape]
    by (simp add: run_route_def)
next
  case ByIdRoute
  then show ?thesis
    using with_client_shape[of "get_product_try store (path_param ps ''id'')", OF get_product_shape]
    by (simp add: run_route_def)
next
  case CreateRoute
  then show ?thesis
    using with_client_shape[of "post_product_try store (req_body req)", OF post_product_shape]
      validateProduct_shape[of "req_body req"]
    by (cases "validateProduct (req_body req)") (auto simp: run_route_def)
next
  case UpdateRoute
  then show ?thesis
    using with_client_shape[of "put_product_try store (path_param ps ''id'') (req_body req)",
        OF put_product_shape]
      validateProduct_shape[of "req_body req"]
    by (cases "validateProduct (req_body req)") (auto simp: run_route_def)
next
  case DeleteRoute
  then show ?thesis
    using with_client_shape[of "delete_product_try store (path_param ps ''id'')", OF delete_product_shape]
    by (simp add: run_route_def)
next
  case SummaryRoute
  then show ?thesis
    using with_client_shape[of "summary_try store", OF summary_shape]
    by (simp add: run_route_def)
next
  case LowStockRoute
  then show ?thesis
    using with_client_shape[of "low_stock_try store", OF low_stock_shape]
    by (simp add: run_route_def)
next
  case HealthRoute
  then show ?thesis
    using health_has_shape[of store d rsp] by (simp add: run_route_def)
qed

theorem response_shapes_witness:
  "fst (run_route (pg_store no_rows) None DeleteRoute [(''id'', ''abc'')]
          (request_of DELETE [''api'', ''products'', ''abc''] [] []) [widget])
     = Some (res_json 500 [(''error'', JVal (JStr ''Internal server error''))])
   \<and> error_shape (res_json 500 [(''error'', JVal (JStr ''Internal server error''))])"
proof -
  have run: "fst (run_route (pg_store no_rows) None DeleteRoute [(''id'', ''abc'')]
          (request_of DELETE [''api'', ''products'', ''abc''] [] []) [widget])
     = Some (res_json 500 [(''error'', JVal (JStr ''Internal server error''))])"
    by code_simp
  have "\<not> success_shape (res_json 500 [(''error'', JVal (JStr ''Internal server error''))])"
    by code_simp
  with response_shapes[of "pg_store no_rows" None DeleteRoute "[(''id'', ''abc'')]"
      "request_of DELETE [''api'', ''products'', ''abc''] [] []" "[widget]"
      "res_json 500 [(''error'', JVal (JStr ''Internal server error''))]"] run
  show ?thesis by simp
qed

text \<open>
  C9 as stated fails on every error path of the product handlers; here a POST with an
  empty body: the 400 response has the field \<open>error\<close> and no field \<open>success\<close>.
\<close>

theorem validation_failure_has_no_success_field:
  "fst (run_route (pg_store no_rows) None CreateRoute [] (request_of POST [''api'', ''products''] [] []) [widget])
     = Some (res_json 400 [(''error'', JVal (JStr ''Missing required fields: stock_code and description''))])
   \<and> \<not> json_envelope (res_json 400 [(''error'', JVal (JStr ''Missing required fields: stock_code and description''))])"
  by code_simp

subsection \<open>Validation before the store\<close>






subsection \<open>A path parameter that is no integer\<close>





subsection \<open>Strings of digits under the coercions\<close>

lemma DecimalDigit_iff: "DecimalDigit c = (48 \<le> (of_char c :: nat) \<and> (of_char c :: nat) \<le> 57)"
  by (auto simp: is_radix_digit_def digit_of_def Let_def)

lemma digit_not_space: "DecimalDigit c \<Longrightarrow> \<not> StrWhiteSpaceChar c"
  by (auto simp: DecimalDigit_iff StrWhiteSpaceChar_def)

lemma digit_not_letter:
  "DecimalDigit c \<Longrightarrow> c \<notin> {CHR ''x'', CHR ''X'', CHR ''o'', CHR ''O'', CHR ''b'', CHR ''B'',
      CHR ''+'', CHR ''-'', CHR ''.'', CHR ''e'', CHR ''E'', CHR ''I''}"
  by (auto simp: DecimalDigit_iff)

lemma trim_id:
  assumes "s \<noteq> []" "\<not> StrWhiteSpaceChar (hd s)" "\<not> StrWhiteSpaceChar (last s)"
  shows "trim s = s"
proof -
  have a: "dropWhile StrWhiteSpaceChar s = s" using assms by (cases s) auto
  have "dropWhile StrWhiteSpaceChar (rev s) = rev s"
    using assms by (cases "rev s") (auto simp: last_rev[symmetric] hd_rev)
  with a show ?thesis by (simp add: trim_def)
qed

lemma digits_takeWhile: "list_all DecimalDigit s \<Longrightarrow> takeWhile DecimalDigit s = s"
  by (simp add: list_all_iff)

lemma digits_dropWhile: "list_all DecimalDigit s \<Longrightarrow> dropWhile DecimalDigit s = []"
  by (simp add: list_all_iff)

lemma digits_not_Infinity: "digits s \<Longrightarrow> s \<noteq> ''Infinity''"
  by (auto simp: digits_def DecimalDigit_iff)

lemma StrUnsignedDecimalLiteral_digits:
  assumes "digits s"
  shows "StrUnsignedDecimalLiteral s = to_double (of_nat (radix_value 10 s))"
proof -
  have i: "s \<noteq> ''Infinity''" using assms by (rule digits_not_Infinity)
  have t: "takeWhile DecimalDigit s = s" and d: "dropWhile DecimalDigit s = []"
    using assms by (simp_all add: digits_def digits_takeWhile digits_dropWhile)
  have e: "ExponentPart [] = Some 0" by (simp add: ExponentPart_def)
  have n: "s \<noteq> []" using assms by (simp add: digits_def)
  show ?thesis
    unfolding StrUnsignedDecimalLiteral_def t d Let_def
    using i n by (simp add: e scale10_def)
qed

lemma NonDecimal_digits:
  assumes "digits s"
  shows "NonDecimalIntegerLiteral s = None"
proof (cases s)
  case Nil
  then show ?thesis by (simp add: NonDecimalIntegerLiteral_def)
next
  case (Cons a t)
  show ?thesis
  proof (cases t)
    case Nil
    with Cons show ?thesis by (simp add: NonDecimalIntegerLiteral_def)
  next
    case (Cons b ds)
    with assms \<open>s = a # t\<close> have "DecimalDigit b" by (simp add: digits_def)
    from digit_not_letter[OF this]
    have "b \<noteq> CHR ''x''" "b \<noteq> CHR ''X''" "b \<noteq> CHR ''o''" "b \<noteq> CHR ''O''" "b \<noteq> CHR ''b''" "b \<noteq> CHR ''B''"
      by blast+
    with Cons \<open>s = a # t\<close> show ?thesis by (simp add: NonDecimalIntegerLiteral_def)
  qed
qed

lemma digits_hd_last: "digits s \<Longrightarrow> DecimalDigit (hd s) \<and> DecimalDigit (last s)"
  by (cases s) (auto simp: digits_def list_all_iff)

lemma StringToNumber_digits:
  assumes "digits s"
  shows "StringToNumber s = to_double (of_nat (radix_value 10 s))"
proof -
  have t: "trim s = s"
    using assms digits_hd_last[OF assms] digit_not_space by (intro trim_id) (auto simp: digits_def)
  obtain c r where s: "s = c # r" using assms by (cases s) (auto simp: digits_def)
  have c: "c \<noteq> CHR ''+''" "c \<noteq> CHR ''-''"
    using assms s digit_not_letter[of c] by (auto simp: digits_def)
  show ?thesis
    using assms c StrUnsignedDecimalLiteral_digits[OF assms] NonDecimal_digits[OF assms]
    by (simp add: StringToNumber_def t Let_def s[symmetric]) (simp add: s)
qed

lemma to_double_not_NaN: "to_double q \<noteq> NaN"
  by (simp add: to_double_def)

lemma to_double_small: "n < 2 ^ 53 \<Longrightarrow> to_double (of_nat n) = Fin (of_nat n)"
proof -
  assume "n < 2 ^ 53"
  then have "(of_nat n :: rat) < 2 ^ 53" by (metis of_nat_less_iff of_nat_numeral of_nat_power)
  moreover have "(2::rat) ^ 53 \<le> 2 ^ 1024 - 2 ^ 970" by simp
  ultimately have a: "\<not> (2 ^ 1024 - 2 ^ 970 \<le> (of_nat n :: rat))" by linarith
  have b: "\<not> ((of_nat n :: rat) \<le> - (2 ^ 1024 - 2 ^ 970))"
  proof -
    have "(0::rat) \<le> of_nat n" by simp
    moreover have "- (2 ^ 1024 - 2 ^ 970) < (0::rat)" by simp
    ultimately show ?thesis by linarith
  qed
  show ?thesis
  proof (cases "n = 0")
    case True
    then show ?thesis by (simp add: to_double_def)
  next
    case False
    then have "(1::rat) \<le> of_nat n" by simp
    moreover have "(1::rat) / 2 ^ 1075 < 1" by simp
    ultimately have "\<not> (\<bar>of_nat n :: rat\<bar> \<le> 1 / 2 ^ 1075)" by linarith
    with a b show ?thesis by (simp add: to_double_def)
  qed
qed

lemma parseInt_digits:
  assumes "digits s"
  shows "parseInt s = to_double (of_nat (radix_value 10 s))"
proof -
  obtain c r where s: "s = c # r" using assms by (cases s) (auto simp: digits_def)
  have c: "DecimalDigit c" "list_all DecimalDigit r" using assms s by (auto simp: digits_def)
  have d: "dropWhile StrWhiteSpaceChar s = s" using c digit_not_space s by auto
  have n: "c \<noteq> CHR ''+''" "c \<noteq> CHR ''-''" using digit_not_letter[OF c(1)] by auto
  have h: "\<not> (case s of a # b # _ \<Rightarrow> a = CHR ''0'' \<and> (b = CHR ''x'' \<or> b = CHR ''X'') | _ \<Rightarrow> False)"
    using c s digit_not_letter by (cases r) auto
  have tw: "takeWhile DecimalDigit s = s" using assms by (simp add: digits_def digits_takeWhile)
  show ?thesis
    unfolding parseInt_def d Let_def
    using n h tw by (simp add: s)
qed

subsection \<open>LIKE and substrings\<close>

lemma like_match_plain_Cons:
  "c \<noteq> CHR ''%'' \<Longrightarrow> c \<noteq> CHR ''_'' \<Longrightarrow> c \<noteq> CHR 0x5C \<Longrightarrow>
     like_match (c # ps) t = (case t of [] \<Rightarrow> False | x # ts \<Rightarrow> x = c \<and> like_match ps ts)"
  by simp

lemma like_match_plain_prefix:
  "plain s \<Longrightarrow> like_match (s @ ps) t = (\<exists>t'. t = s @ t' \<and> like_match ps t')"
proof (induction s arbitrary: t)
  case Nil
  then show ?case by simp
next
  case (Cons c s)
  then have c: "c \<noteq> CHR ''%''" "c \<noteq> CHR ''_''" "c \<noteq> CHR 0x5C" and s: "plain s"
    by (simp_all add: plain_def)
  show ?case
  proof (cases t)
    case Nil
    then show ?thesis using c by simp
  next
    case (Cons x ts)
    have "like_match ((c # s) @ ps) t = (x = c \<and> like_match (s @ ps) ts)"
      using c Cons by simp
    also have "\<dots> = (x = c \<and> (\<exists>t'. ts = s @ t' \<and> like_match ps t'))"
      using Cons.IH[OF s] by simp
    also have "\<dots> = (\<exists>t'. t = (c # s) @ t' \<and> like_match ps t')"
      using Cons by auto
    finally show ?thesis .
  qed
qed

lemma like_match_percent:
  "like_match (CHR ''%'' # ps) t = (\<exists>a b. t = a @ b \<and> like_match ps b)"
proof (induction t)
  case Nil
  then show ?case by simp
next
  case (Cons x xs)
  have "like_match (CHR ''%'' # ps) (x # xs) = (like_match ps (x # xs) \<or> like_match (CHR ''%'' # ps) xs)"
    by simp
  also have "\<dots> = (like_match ps (x # xs) \<or> (\<exists>a b. xs = a @ b \<and> like_match ps b))"
    using Cons.IH by simp
  also have "\<dots> = (\<exists>a b. x # xs = a @ b \<and> like_match ps b)"
  proof
    assume "like_match ps (x # xs) \<or> (\<exists>a b. xs = a @ b \<and> like_match ps b)"
    then show "\<exists>a b. x # xs = a @ b \<and> like_match ps b"
    proof
      assume "like_match ps (x # xs)"
      then have "x # xs = [] @ (x # xs) \<and> like_match ps (x # xs)" by simp
      then show ?thesis by blast
    next
      assume "\<exists>a b. xs = a @ b \<and> like_match ps b"
      then obtain a b where "xs = a @ b" "like_match ps b" by blast
      then have "x # xs = (x # a) @ b \<and> like_match ps b" by simp
      then show ?thesis by blast
    qed
  next
    assume "\<exists>a b. x # xs = a @ b \<and> like_match ps b"
    then obtain a b where ab: "x # xs = a @ b" "like_match ps b" by blast
    show "like_match ps (x # xs) \<or> (\<exists>a b. xs = a @ b \<and> like_match ps b)"
    proof (cases a)
      case Nil
      with ab show ?thesis by simp
    next
      case (Cons y a')
      with ab have "xs = a' @ b" by simp
      with ab show ?thesis by blast
    qed
  qed
  finally show ?case .
qed

lemma like_match_substring:
  assumes "plain s"
  shows "like_match (CHR ''%'' # s @ ''%'') t = sublist s t"
proof -
  have e: "\<And>u. like_match ''%'' u" by (subst like_match_percent) simp
  have "like_match (CHR ''%'' # s @ ''%'') t = (\<exists>a b. t = a @ b \<and> like_match (s @ ''%'') b)"
    by (rule like_match_percent)
  also have "\<dots> = (\<exists>a b. t = a @ b \<and> (\<exists>t'. b = s @ t' \<and> like_match ''%'' t'))"
    by (simp only: like_match_plain_prefix[OF assms])
  also have "\<dots> = (\<exists>a t'. t = a @ s @ t')" using e by blast
  finally show ?thesis by (simp only: sublist_def)
qed

lemma toLowerCase_append: "toLowerCase (a @ b) = toLowerCase a @ toLowerCase b"
  by (simp add: toLowerCase_def)

lemma of_char_lower_char:
  "(of_char (lower_char c) :: nat) =
     (if 65 \<le> (of_char c :: nat) \<and> (of_char c :: nat) \<le> 90 then of_char c + 32 else of_char c)"
  by (simp add: lower_char_def)

lemma lower_char_plain:
  assumes "c \<noteq> CHR ''%'' \<and> c \<noteq> CHR ''_'' \<and> c \<noteq> CHR 0x5C"
  shows "lower_char c \<noteq> CHR ''%'' \<and> lower_char c \<noteq> CHR ''_'' \<and> lower_char c \<noteq> CHR 0x5C"
proof (cases "65 \<le> (of_char c :: nat) \<and> (of_char c :: nat) \<le> 90")
  case True
  then have "97 \<le> (of_char (lower_char c) :: nat)" by (simp add: of_char_lower_char)
  then show ?thesis by auto
next
  case False
  then have "lower_char c = c" unfolding lower_char_def by (simp only: if_False)
  with assms show ?thesis by simp
qed

lemma plain_toLowerCase: "plain s \<Longrightarrow> plain (toLowerCase s)"
  using lower_char_plain by (induction s) (simp_all add: plain_def toLowerCase_def)

lemma toLowerCase_percent: "toLowerCase ''%'' = ''%''"
  by (simp add: toLowerCase_def lower_char_def)

lemma ilike_substring:
  assumes "plain s"
  shows "ilike t (''%'' @ s @ ''%'') = contains_ci s t"
proof -
  have "toLowerCase (''%'' @ s @ ''%'') = CHR ''%'' # toLowerCase s @ ''%''"
    using toLowerCase_percent by (simp add: toLowerCase_def)
  then show ?thesis
    using like_match_substring[OF plain_toLowerCase[OF assms]]
    by (simp only: ilike_def contains_ci_def)
qed

subsection \<open>The list statement\<close>

lemma sortColumn_valid:
  "(if array_includes validSort v then template_string v else ''stock_code'') \<in> set validSort"
  by (cases v) (auto simp: array_includes_def validSort_def)

lemma products_query_Inr:
  assumes "products_query q = Inr (SelectProducts wc col ord li oi, params)"
  shows "col \<in> set validSort \<and> (ord = ''ASC'' \<or> ord = ''DESC'') \<and>
         (if ToBoolean (to_js (search_value q))
          then wc = ''WHERE stock_code ILIKE $1 OR description ILIKE $1'' \<and> li = 2 \<and> oi = 3 \<and>
               params = [JStr (''%'' @ template_string (search_value q) @ ''%''), limit_value q,
                         JNum (offset_value q)]
          else wc = [] \<and> li = 1 \<and> oi = 2 \<and> params = [limit_value q, JNum (offset_value q)])"
proof -
  let ?so = "case map_of q ''sort_order'' of None \<Rightarrow> QStr ''ASC'' | Some v \<Rightarrow> v"
  let ?sb = "case map_of q ''sort_by'' of None \<Rightarrow> QStr ''stock_code'' | Some v \<Rightarrow> v"
  obtain u where u: "call_toUpperCase ?so = Inr u"
    using assms by (cases "call_toUpperCase ?so") (simp_all add: products_query_def Let_def)
  have col: "col = (if array_includes validSort ?sb then template_string ?sb else ''stock_code'')"
    and ord: "ord = (if u = ''DESC'' then ''DESC'' else ''ASC'')"
    using assms u by (simp_all add: products_query_def Let_def)
  have rest: "(if ToBoolean (to_js (search_value q))
          then wc = ''WHERE stock_code ILIKE $1 OR description ILIKE $1'' \<and> li = 2 \<and> oi = 3 \<and>
               params = [JStr (''%'' @ template_string (search_value q) @ ''%''), limit_value q,
                         JNum (offset_value q)]
          else wc = [] \<and> li = 1 \<and> oi = 2 \<and> params = [limit_value q, JNum (offset_value q)])"
    using assms u
    by (simp add: products_query_def Let_def search_value_def limit_value_def offset_value_def page_value_def
        split: if_splits)
  show ?thesis using col ord rest sortColumn_valid[of ?sb] by (simp only:) simp
qed

lemma get_products_try_pg:
  assumes "products_query q = Inr (SelectProducts wc col ord li oi, params)"
  shows "get_products_try (pg_store other) q tbl =
           (listing (limit_offset (limit_value q) (JNum (offset_value q))
                       (order_by col ord (search_filter q tbl))),
            [Query (SelectProducts wc col ord li oi) params], tbl)"
proof -
  note p = products_query_Inr[OF assms]
  show ?thesis
  proof (cases "ToBoolean (to_js (search_value q))")
    case True
    with p have *: "wc = ''WHERE stock_code ILIKE $1 OR description ILIKE $1''" "li = 2" "oi = 3"
      "params = [JStr (''%'' @ template_string (search_value q) @ ''%''), limit_value q, JNum (offset_value q)]"
      by simp_all
    have s: "pg_store other (SelectProducts wc col ord li oi) params tbl =
        (map_sum id (map ProductRow)
           (limit_offset (limit_value q) (JNum (offset_value q))
              (order_by col ord (where_ilike (''%'' @ template_string (search_value q) @ ''%'') tbl))), tbl)"
      using p unfolding * by (simp add: pg_store_def)
    show ?thesis
      using True
      by (cases "limit_offset (limit_value q) (JNum (offset_value q))
              (order_by col ord (where_ilike (''%'' @ template_string (search_value q) @ ''%'') tbl))")
         (simp_all add: get_products_try_def assms client_query_def s listing_def search_filter_def)
  next
    case False
    with p have *: "wc = []" "li = 1" "oi = 2"
      "params = [limit_value q, JNum (offset_value q)]"
      by simp_all
    have s: "pg_store other (SelectProducts wc col ord li oi) params tbl =
        (map_sum id (map ProductRow)
           (limit_offset (limit_value q) (JNum (offset_value q)) (order_by col ord tbl)), tbl)"
      using p unfolding * by (simp add: pg_store_def)
    show ?thesis
      using False
      by (cases "limit_offset (limit_value q) (JNum (offset_value q)) (order_by col ord tbl)")
         (simp_all add: get_products_try_def assms client_query_def s listing_def search_filter_def)
  qed
qed

lemma where_ilike_plain:
  "plain s \<Longrightarrow> where_ilike (CHR ''%'' # s @ ''%'') tbl
     = filter (\<lambda>p. contains_ci s (stock_code p) \<or> contains_ci s (description p)) tbl"
  using ilike_substring[of s] by (simp add: where_ilike_def)





subsection \<open>Evaluating the coercions on concrete strings\<close>

lemmas js_eval = StringToNumber_def trim_def StrWhiteSpaceChar_def NonDecimalIntegerLiteral_def
  StrUnsignedDecimalLiteral_def is_radix_digit_def digit_of_def radix_value_def ExponentPart_def
  SignedInteger_def scale10_def to_double_def negate_def parseInt_def isNaN_def Let_def

subsection \<open>Lookup by product_id or by stock_code\<close>

lemma StringToNumber_integer_string:
  assumes "integer_string s"
  shows "StringToNumber s \<noteq> NaN"
proof (cases s)
  case Nil
  with assms show ?thesis by (simp add: integer_string_def digits_def)
next
  case (Cons c r)
  show ?thesis
  proof (cases "c = CHR ''+'' \<or> c = CHR ''-''")
    case False
    with assms Cons have "digits s" by (simp add: integer_string_def)
    then show ?thesis by (simp add: StringToNumber_digits to_double_not_NaN)
  next
    case True
    with assms Cons have d: "digits r" by (simp add: integer_string_def)
    have ns: "\<not> StrWhiteSpaceChar c" using True by (auto simp: StrWhiteSpaceChar_def)
    have t: "trim s = s"
    proof (rule trim_id)
      show "s \<noteq> []" using Cons by simp
      show "\<not> StrWhiteSpaceChar (hd s)" using Cons ns by simp
      have "last s = last r" using Cons d by (simp add: digits_def)
      then show "\<not> StrWhiteSpaceChar (last s)"
        using digits_hd_last[OF d] digit_not_space by simp
    qed
    have nd: "NonDecimalIntegerLiteral s = None"
      using True Cons by (cases r) (auto simp: NonDecimalIntegerLiteral_def)
    have u: "StrUnsignedDecimalLiteral r \<noteq> NaN"
      using StrUnsignedDecimalLiteral_digits[OF d] by (simp add: to_double_not_NaN)
    then have n: "negate (StrUnsignedDecimalLiteral r) \<noteq> NaN"
      by (cases "StrUnsignedDecimalLiteral r") (simp_all add: negate_def)
    show ?thesis
      unfolding StringToNumber_def t Let_def nd using True u n Cons by auto
  qed
qed

text \<open>
  C2, as the code has it. The lookup is by \<open>product_id\<close>, with \<open>parseInt(id)\<close> as the key,
  exactly when \<open>Number(id)\<close> is not NaN, and otherwise by \<open>stock_code\<close> with the string as
  it is. Every string that parses fully as an integer is looked up by \<open>product_id\<close>, and
  a string of decimal digits (below \<open>2^53\<close>) with its value as the key.
\<close>

theorem lookup_by_numeric_coercion:
  "(integer_string id' \<longrightarrow> fst (product_lookup id') = SelectProductBy ''product_id'')
   \<and> (digits id' \<and> radix_value 10 id' < 2 ^ 53 \<longrightarrow>
        product_lookup id' = (SelectProductBy ''product_id'', [JNum (Fin (of_nat (radix_value 10 id')))]))
   \<and> product_lookup id' =
        (if StringToNumber id' = NaN then (SelectProductBy ''stock_code'', [JStr id'])
         else (SelectProductBy ''product_id'', [JNum (parseInt id')]))"
proof (intro conjI impI)
  assume "integer_string id'"
  then show "fst (product_lookup id') = SelectProductBy ''product_id''"
    using StringToNumber_integer_string by (simp add: product_lookup_def isNaN_def Let_def)
next
  assume a: "digits id' \<and> radix_value 10 id' < 2 ^ 53"
  then have "StringToNumber id' = Fin (of_nat (radix_value 10 id'))"
    and "parseInt id' = Fin (of_nat (radix_value 10 id'))"
    by (simp_all add: StringToNumber_digits parseInt_digits to_double_small)
  then show "product_lookup id' = (SelectProductBy ''product_id'', [JNum (Fin (of_nat (radix_value 10 id')))])"
    by (simp add: product_lookup_def isNaN_def Let_def)
next
  show "product_lookup id' =
        (if StringToNumber id' = NaN then (SelectProductBy ''stock_code'', [JStr id'])
         else (SelectProductBy ''product_id'', [JNum (parseInt id')]))"
    by (simp add: product_lookup_def isNaN_def Let_def)
qed

theorem lookup_by_numeric_coercion_witness:
  "integer_string ''12'' \<and> digits ''12'' \<and> radix_value 10 ''12'' = 12
   \<and> product_lookup ''12'' = (SelectProductBy ''product_id'', [JNum (Fin 12)])
   \<and> StringToNumber ''12abc'' = NaN
   \<and> product_lookup ''12abc'' = (SelectProductBy ''stock_code'', [JStr ''12abc''])"
proof -
  have i: "integer_string ''12''" and d: "digits ''12''" and r: "radix_value 10 ''12'' = 12"
    by code_simp+
  have n: "StringToNumber ''12abc'' = NaN" by (simp add: js_eval)
  have b: "radix_value 10 ''12'' < 2 ^ 53" unfolding r by simp
  have l1: "product_lookup ''12'' = (SelectProductBy ''product_id'', [JNum (Fin 12)])"
    using lookup_by_numeric_coercion[of "''12''", THEN conjunct2, THEN conjunct1, THEN mp, OF conjI[OF d b]]
    by (simp add: r)
  have l2: "product_lookup ''12abc'' = (SelectProductBy ''stock_code'', [JStr ''12abc''])"
    using lookup_by_numeric_coercion[of "''12abc''", THEN conjunct2, THEN conjunct2]
    by (simp add: n)
  show ?thesis by (intro conjI i d r l1 l2 n)
qed

text \<open>
  C2 as stated fails at \<open>"12.5"\<close>: it is no integer, yet \<open>isNaN\<close> accepts it, \<open>parseInt\<close>
  cuts it to 12, and the request is answered with the product whose \<open>product_id\<close> is 12.
\<close>

theorem fractional_id_is_looked_up_by_product_id:
  "\<not> integer_string ''12.5''
   \<and> product_lookup ''12.5'' = (SelectProductBy ''product_id'', [JNum (Fin 12)])
   \<and> fst (run_route (pg_store no_rows) None ByIdRoute [(''id'', ''12.5'')]
             (request_of GET [''api'', ''products'', ''12.5''] [] []) [widget, wool])
       = Some (res_json 200 [(''success'', JVal (JBool True)), (''data'', JRow (ProductRow wool))])"
proof -
  have i: "\<not> integer_string ''12.5''" by code_simp
  have l: "product_lookup ''12.5'' = (SelectProductBy ''product_id'', [JNum (Fin 12)])"
    by (simp add: product_lookup_def js_eval)
  have s: "pg_store no_rows (SelectProductBy ''product_id'') [JNum (Fin 12)] [widget, wool]
      = (Inr [ProductRow wool], [widget, wool])"
    by code_simp
  have p: "path_param [(''id'', ''12.5'')] ''id'' = ''12.5''" by code_simp
  have "fst (run_route (pg_store no_rows) None ByIdRoute [(''id'', ''12.5'')]
             (request_of GET [''api'', ''products'', ''12.5''] [] []) [widget, wool])
       = Some (res_json 200 [(''success'', JVal (JBool True)), (''data'', JRow (ProductRow wool))])"
    by (simp add: run_route_def p with_client_def try_catch_finally_def get_product_try_def l
        client_query_def s first_row_def)
  with i l show ?thesis by (intro conjI)
qed

subsection \<open>The low-stock route\<close>

text \<open>
  C1. The route \<open>/api/products/:id\<close> is registered before \<open>/api/products/low-stock\<close> and
  matches every path of three segments under \<open>/api/products\<close>. A GET of
  \<open>/api/products/low-stock\<close> is therefore a lookup of the product whose \<open>stock_code\<close> is
  \<open>low-stock\<close>: on a table with a row below its reorder level the answer is 404, where the
  low-stock handler, had it been reached, would have answered with that row.
\<close>

theorem low_stock_request_reaches_lookup_by_id:
  "dispatch GET [''api'', ''products'', ''low-stock''] = Some (ByIdRoute, [(''id'', ''low-stock'')])
   \<and> serve (pg_store no_rows) None (request_of GET [''api'', ''products'', ''low-stock''] [] []) [widget, wool]
       = (Some (res_json 404 [(''error'', JVal (JStr ''Product not found''))]),
          [Connect, Query (SelectProductBy ''stock_code'') [JStr ''low-stock''], Release],
          [widget, wool])
   \<and> run_route (pg_store no_rows) None LowStockRoute []
         (request_of GET [''api'', ''products'', ''low-stock''] [] []) [widget, wool]
       = (Some (res_json 200 [(''success'', JVal (JBool True)),
                              (''data'', JRows [LowStockRow 1 ''A1'' ''Widget'' 1 5])]),
          [Connect, Query SelectLowStock [], Release],
          [widget, wool])"
  by code_simp

lemma match_param_shadows:
  "match_path [Lit ''api'', Lit ''products'', Lit ''low-stock''] p \<noteq> None \<Longrightarrow>
   match_path [Lit ''api'', Lit ''products'', Param ''id''] p \<noteq> None"
proof -
  assume a: "match_path [Lit ''api'', Lit ''products'', Lit ''low-stock''] p \<noteq> None"
  show ?thesis
  proof (cases p)
    case Nil
    with a show ?thesis by simp
  next
    case (Cons s1 p1)
    show ?thesis
    proof (cases p1)
      case Nil
      with a Cons show ?thesis by (simp split: if_splits)
    next
      case (Cons s2 p2)
      show ?thesis
      proof (cases p2)
        case Nil
        with a \<open>p = s1 # p1\<close> \<open>p1 = s2 # p2\<close> show ?thesis by (simp split: if_splits)
      next
        case (Cons s3 p3)
        show ?thesis
        proof (cases p3)
          case Nil
          with a \<open>p = s1 # p1\<close> \<open>p1 = s2 # p2\<close> \<open>p2 = s3 # p3\<close> show ?thesis
            by (simp split: if_splits)
        next
          case (Cons s4 p4)
          with a \<open>p = s1 # p1\<close> \<open>p1 = s2 # p2\<close> \<open>p2 = s3 # p3\<close> show ?thesis
            by (simp split: if_splits)
        qed
      qed
    qed
  qed
qed

text \<open>No request at all is dispatched to the low-stock handler.\<close>

theorem low_stock_route_unreachable: "dispatch m p \<noteq> Some (LowStockRoute, ps)"
proof (cases "match_path [Lit ''api'', Lit ''products'', Lit ''low-stock''] p")
  case None
  then show ?thesis
    by (cases m) (simp_all add: dispatch_def routes_def split: option.splits)
next
  case (Some x)
  then have "match_path [Lit ''api'', Lit ''products'', Param ''id''] p \<noteq> None"
    using match_param_shadows[of p] by simp
  then obtain y where y: "match_path [Lit ''api'', Lit ''products'', Param ''id''] p = Some y" by blast
  show ?thesis
    by (cases m) (simp_all add: dispatch_def routes_def y split: option.splits)
qed

lemma sorted_low_stock:
  "sorted (map stock_quantity (sort_key stock_quantity (filter (\<lambda>p. stock_quantity p \<le> reorder_level p) tbl)))"
  by simp

text \<open>
  The low-stock handler itself, when it runs against PostgreSQL: it answers with the rows
  whose \<open>stock_quantity\<close> is at most their \<open>reorder_level\<close>, each once, in ascending order
  of \<open>stock_quantity\<close>.
\<close>

theorem low_stock_handler_rows:
  "run_route (pg_store other) None LowStockRoute ps req tbl
     = (Some (res_json 200 [(''success'', JVal (JBool True)), (''data'', JRows (low_stock_rows tbl))]),
        [Connect, Query SelectLowStock [], Release], tbl)
   \<and> set (low_stock_rows tbl)
       = (\<lambda>p. LowStockRow (product_id p) (stock_code p) (description p) (stock_quantity p) (reorder_level p))
           ` set (filter (\<lambda>p. stock_quantity p \<le> reorder_level p) tbl)
   \<and> length (low_stock_rows tbl) = length (filter (\<lambda>p. stock_quantity p \<le> reorder_level p) tbl)
   \<and> sorted (map (\<lambda>r. case r of LowStockRow _ _ _ sq _ \<Rightarrow> sq | _ \<Rightarrow> 0) (low_stock_rows tbl))"
proof (intro conjI)
  show "run_route (pg_store other) None LowStockRoute ps req tbl
     = (Some (res_json 200 [(''success'', JVal (JBool True)), (''data'', JRows (low_stock_rows tbl))]),
        [Connect, Query SelectLowStock [], Release], tbl)"
    by (simp add: run_route_def with_client_def try_catch_finally_def low_stock_try_def client_query_def
        pg_store_def res_json_def)
  show "set (low_stock_rows tbl)
       = (\<lambda>p. LowStockRow (product_id p) (stock_code p) (description p) (stock_quantity p) (reorder_level p))
           ` set (filter (\<lambda>p. stock_quantity p \<le> reorder_level p) tbl)"
    by (simp add: low_stock_rows_def)
  show "length (low_stock_rows tbl) = length (filter (\<lambda>p. stock_quantity p \<le> reorder_level p) tbl)"
    by (simp add: low_stock_rows_def)
  have "map (\<lambda>r. case r of LowStockRow _ _ _ sq _ \<Rightarrow> sq | _ \<Rightarrow> 0) (low_stock_rows tbl)
      = map stock_quantity (sort_key stock_quantity (filter (\<lambda>p. stock_quantity p \<le> reorder_level p) tbl))"
    by (simp add: low_stock_rows_def comp_def)
  then show "sorted (map (\<lambda>r. case r of LowStockRow _ _ _ sq _ \<Rightarrow> sq | _ \<Rightarrow> 0) (low_stock_rows tbl))"
    by (simp only: sorted_low_stock)
qed

subsection \<open>Sort column and direction\<close>

text \<open>
  C4. A query string that repeats \<open>sort_order\<close> (\<open>?sort_order=a&sort_order=b\<close>) gives the
  handler an array; \<open>sort_order.toUpperCase\<close> is not a function, the TypeError is caught
  and the request ends with 500 before any statement is issued.
\<close>

theorem repeated_sort_order_is_500:
  "serve (pg_store no_rows) None
     (request_of GET [''api'', ''products''] [(''sort_order'', QObj ''a,b'')] []) [widget]
     = (Some (res_json 500 [(''error'', JVal (JStr ''Internal server error''))]),
        [Connect, ConsoleError \<lparr>code = None, message = ''sort_order.toUpperCase is not a function''\<rparr>,
         Release],
        [widget])"
  by code_simp

lemma of_char_upper_char:
  "(of_char (upper_char c) :: nat) =
     (if 97 \<le> (of_char c :: nat) \<and> (of_char c :: nat) \<le> 122 then of_char c - 32 else of_char c)"
  by (auto simp: upper_char_def)

lemma of_char_inject: "(of_char a :: nat) = of_char b \<Longrightarrow> a = b"
  by (metis char_of_char)

lemma lower_upper_char: "lower_char (upper_char c) = lower_char c"
  by (rule of_char_inject) (auto simp: of_char_lower_char of_char_upper_char)

lemma upper_lower_char: "upper_char (lower_char c) = upper_char c"
  by (rule of_char_inject) (auto simp: of_char_lower_char of_char_upper_char)

lemma toLowerCase_toUpperCase: "toLowerCase (toUpperCase s) = toLowerCase s"
  by (simp add: toLowerCase_def toUpperCase_def lower_upper_char)

lemma toUpperCase_toLowerCase: "toUpperCase (toLowerCase s) = toUpperCase s"
  by (simp add: toLowerCase_def toUpperCase_def upper_lower_char)

lemma upper_is_DESC: "(toUpperCase s = ''DESC'') = eq_ignore_case s ''DESC''"
proof
  assume "toUpperCase s = ''DESC''"
  then have "toLowerCase (toUpperCase s) = toLowerCase ''DESC''" by simp
  then show "eq_ignore_case s ''DESC''" by (simp only: toLowerCase_toUpperCase eq_ignore_case_def)
next
  assume "eq_ignore_case s ''DESC''"
  then have "toUpperCase (toLowerCase s) = toUpperCase (toLowerCase ''DESC'')"
    by (simp only: eq_ignore_case_def)
  moreover have "toUpperCase (toLowerCase ''DESC'') = ''DESC''" by code_simp
  ultimately show "toUpperCase s = ''DESC''" by (simp only: toUpperCase_toLowerCase)
qed

text \<open>
  For a \<open>sort_order\<close> that is absent or a string, the statement orders by \<open>sort_by\<close> when
  that is one of the four allowed columns and by \<open>stock_code\<close> otherwise, descending
  exactly when \<open>sort_order\<close> equals \<open>DESC\<close> without regard to case.
\<close>

theorem sort_allow_list_for_text_order:
  "sort_order_text q = Some so \<longrightarrow>
     (\<exists>wc li oi params.
        products_query q = Inr (SelectProducts wc (sort_by_column q)
                                  (if eq_ignore_case so ''DESC'' then ''DESC'' else ''ASC'') li oi, params))"
proof
  assume a: "sort_order_text q = Some so"
  let ?so = "case map_of q ''sort_order'' of None \<Rightarrow> QStr ''ASC'' | Some v \<Rightarrow> v"
  let ?sb = "case map_of q ''sort_by'' of None \<Rightarrow> QStr ''stock_code'' | Some v \<Rightarrow> v"
  have so: "?so = QStr so"
    using a by (auto simp: sort_order_text_def split: option.splits qval.splits)
  then have u: "call_toUpperCase ?so = Inr (toUpperCase so)" by (simp add: call_toUpperCase_def)
  have c: "(if array_includes validSort ?sb then template_string ?sb else ''stock_code'') = sort_by_column q"
    by (auto simp: sort_by_column_def array_includes_def validSort_def split: option.splits qval.splits)
  show "\<exists>wc li oi params.
        products_query q = Inr (SelectProducts wc (sort_by_column q)
                                  (if eq_ignore_case so ''DESC'' then ''DESC'' else ''ASC'') li oi, params)"
    unfolding products_query_def Let_def u c by (simp add: upper_is_DESC)
qed

theorem sort_allow_list_for_text_order_witness:
  "sort_order_text [(''sort_by'', QStr ''dropcolumn''), (''sort_order'', QStr ''desc'')] = Some ''desc''
   \<and> sort_by_column [(''sort_by'', QStr ''dropcolumn''), (''sort_order'', QStr ''desc'')] = ''stock_code''
   \<and> eq_ignore_case ''desc'' ''DESC''
   \<and> (\<exists>wc li oi params.
        products_query [(''sort_by'', QStr ''dropcolumn''), (''sort_order'', QStr ''desc'')]
          = Inr (SelectProducts wc ''stock_code'' ''DESC'' li oi, params))"
proof -
  let ?q = "[(''sort_by'', QStr ''dropcolumn''), (''sort_order'', QStr ''desc'')]"
  have a: "sort_order_text ?q = Some ''desc''" by code_simp
  have b: "sort_by_column ?q = ''stock_code''" by code_simp
  have c: "eq_ignore_case ''desc'' ''DESC''" by code_simp
  show ?thesis
    using sort_allow_list_for_text_order[of ?q "''desc''", THEN mp, OF a] a b c
    by simp
qed

subsection \<open>Search\<close>

text \<open>
  C6, as the code has it. For a search string that is not empty and holds none of \<open>%\<close>,
  \<open>_\<close> and backslash, the list handler answers with the rows whose \<open>stock_code\<close> or
  \<open>description\<close> contains it as a substring without regard to case, ordered and cut
  to the page (or with the store's error for the page parameters). For an absent or
  empty search string no row is filtered out.
\<close>

theorem search_is_substring_match:
  "(plain s \<and> s \<noteq> [] \<and> map_of q ''search'' = Some (QStr s)
      \<and> products_query q = Inr (SelectProducts wc col ord li oi, params) \<longrightarrow>
     fst (get_products_try (pg_store other) q tbl) =
       listing (limit_offset (limit_value q) (JNum (offset_value q))
         (order_by col ord
            (filter (\<lambda>p. contains_ci s (stock_code p) \<or> contains_ci s (description p)) tbl))))
   \<and> ((map_of q ''search'' = None \<or> map_of q ''search'' = Some (QStr []))
      \<and> products_query q = Inr (SelectProducts wc col ord li oi, params) \<longrightarrow>
     fst (get_products_try (pg_store other) q tbl) =
       listing (limit_offset (limit_value q) (JNum (offset_value q)) (order_by col ord tbl)))"
proof (intro conjI impI)
  assume a: "plain s \<and> s \<noteq> [] \<and> map_of q ''search'' = Some (QStr s)
      \<and> products_query q = Inr (SelectProducts wc col ord li oi, params)"
  then have "search_filter q tbl = filter (\<lambda>p. contains_ci s (stock_code p) \<or> contains_ci s (description p)) tbl"
    by (simp add: search_filter_def search_value_def where_ilike_plain)
  with a show "fst (get_products_try (pg_store other) q tbl) =
       listing (limit_offset (limit_value q) (JNum (offset_value q))
         (order_by col ord
            (filter (\<lambda>p. contains_ci s (stock_code p) \<or> contains_ci s (description p)) tbl)))"
    by (simp add: get_products_try_pg)
next
  assume a: "(map_of q ''search'' = None \<or> map_of q ''search'' = Some (QStr []))
      \<and> products_query q = Inr (SelectProducts wc col ord li oi, params)"
  then have "search_filter q tbl = tbl"
    by (auto simp: search_filter_def search_value_def)
  with a show "fst (get_products_try (pg_store other) q tbl) =
       listing (limit_offset (limit_value q) (JNum (offset_value q)) (order_by col ord tbl))"
    by (simp add: get_products_try_pg)
qed

theorem search_is_substring_match_witness:
  "plain ''WID''
   \<and> products_query [(''search'', QStr ''WID'')]
        = Inr (SelectProducts ''WHERE stock_code ILIKE $1 OR description ILIKE $1'' ''stock_code'' ''ASC'' 2 3,
               [JStr ''%WID%'', JNum (Fin 10), JNum (Fin 0)])
   \<and> fst (get_products_try (pg_store no_rows) [(''search'', QStr ''WID'')] [widget, wool])
        = listing (Inr [widget])
   \<and> products_query [] = Inr (SelectProducts [] ''stock_code'' ''ASC'' 1 2, [JNum (Fin 10), JNum (Fin 0)])
   \<and> fst (get_products_try (pg_store no_rows) [] [widget, wool]) = listing (Inr [widget, wool])"
proof -
  have p: "plain ''WID''" by code_simp
  have q1: "products_query [(''search'', QStr ''WID'')]
        = Inr (SelectProducts ''WHERE stock_code ILIKE $1 OR description ILIKE $1'' ''stock_code'' ''ASC'' 2 3,
               [JStr ''%WID%'', JNum (Fin 10), JNum (Fin 0)])"
    by code_simp
  have q2: "products_query [] = Inr (SelectProducts [] ''stock_code'' ''ASC'' 1 2, [JNum (Fin 10), JNum (Fin 0)])"
    by code_simp
  have r1: "limit_offset (limit_value [(''search'', QStr ''WID'')]) (JNum (offset_value [(''search'', QStr ''WID'')]))
         (order_by ''stock_code'' ''ASC''
            (filter (\<lambda>p. contains_ci ''WID'' (stock_code p) \<or> contains_ci ''WID'' (description p)) [widget, wool]))
        = Inr [widget]"
    by code_simp
  have r2: "limit_offset (limit_value []) (JNum (offset_value [])) (order_by ''stock_code'' ''ASC'' [widget, wool])
        = Inr [widget, wool]"
    by code_simp
  show ?thesis
    using search_is_substring_match[of "''WID''" "[(''search'', QStr ''WID'')]"
        "''WHERE stock_code ILIKE $1 OR description ILIKE $1''" "''stock_code''" "''ASC''" 2 3
        "[JStr ''%WID%'', JNum (Fin 10), JNum (Fin 0)]" no_rows "[widget, wool]"]
      search_is_substring_match[of "''WID''" "[]" "[]" "''stock_code''" "''ASC''" 1 2
        "[JNum (Fin 10), JNum (Fin 0)]" no_rows "[widget, wool]"]
      p q1 q2 r1 r2
    by simp
qed

text \<open>
  C6 as stated fails for a search string with a LIKE wildcard: \<open>search=_\<close> returns a row
  that has no underscore in \<open>stock_code\<close> or \<open>description\<close>.
\<close>

theorem underscore_is_a_wildcard:
  "\<not> contains_ci ''_'' (stock_code widget) \<and> \<not> contains_ci ''_'' (description widget)
   \<and> fst (run_route (pg_store no_rows) None ListRoute []
             (request_of GET [''api'', ''products''] [(''search'', QStr ''_'')] []) [widget])
       = Some (res_json 200 [(''success'', JVal (JBool True)), (''data'', JRows [ProductRow widget])])"
  by code_simp

subsection \<open>Pagination\<close>



end
